theory Spec2Isabelle
  imports Complex_Main "HOL-Library.Sublist" "HOL-Library.AList"
begin

section \<open>JavaScript values\<close>

text \<open>
  The values the TypeScript sources handle at run time. \<open>JNum\<close> holds a finite number,
  by its real value (the two zeros are one); \<open>NaN\<close> and the two infinities stand beside
  it. A string is the list of its code units and an array is a list. \<open>JObj kvs\<close> is an
  ordinary object whose prototype is \<open>Object.prototype\<close>, with its own enumerable
  string-keyed properties in the order \<open>Object.entries\<close> lists them (the keys of an
  object are distinct). \<open>JProtoObj p kvs\<close> is an ordinary object with another prototype:
  \<open>p\<close> is \<open>null\<close>, or the array or object it inherits from. \<open>JCycle\<close>, inside an array or
  object, is a reference back to an array or object that contains it; \<open>JSON.parse\<close>
  yields none. \<open>JOther s\<close> stands for every other value (a function, a symbol, a bigint
  other than zero, a Date, an instance of a class), and \<open>s\<close> names it.
\<close>

datatype jsval =
    JUndefined
  | JNull
  | JBool bool
  | JNum real
  | JNaN
  | JInfinity
  | JNegInfinity
  | JStr string
  | JArr "jsval list"
  | JObj "(string \<times> jsval) list"
  | JProtoObj jsval "(string \<times> jsval) list"
  | JCycle
  | JOther string

text \<open>Truthiness, as \<open>!x\<close>, \<open>&&\<close> and \<open>filter\<close> read a value.\<close>

fun truthy :: "jsval \<Rightarrow> bool" where
  "truthy JUndefined = False"
| "truthy JNull = False"
| "truthy (JBool b) = b"
| "truthy (JNum n) = (n \<noteq> 0)"
| "truthy JNaN = False"
| "truthy JInfinity = True"
| "truthy JNegInfinity = True"
| "truthy (JStr s) = (s \<noteq> [])"
| "truthy (JArr xs) = True"
| "truthy (JObj kvs) = True"
| "truthy (JProtoObj p kvs) = True"
| "truthy JCycle = True"
| "truthy (JOther s) = True"

text \<open>
  \<open>v?.k\<close>: optional chaining gives \<open>undefined\<close> on \<open>null\<close> and \<open>undefined\<close>; an object
  gives its own property, or else what its prototype gives; the keys read in this
  program (\<open>id\<close>, \<open>name\<close>, \<open>title\<close>, \<open>content\<close>, \<open>canvasKey\<close>, \<open>folders\<close>, \<open>files\<close>, \<open>token\<close>,
  \<open>error\<close>) are properties of no primitive, array or built-in prototype, so every other
  value gives \<open>undefined\<close>.
\<close>

fun opt_prop :: "jsval \<Rightarrow> string \<Rightarrow> jsval" where
  "opt_prop (JObj kvs) k = (case map_of kvs k of Some v \<Rightarrow> v | None \<Rightarrow> JUndefined)"
| "opt_prop (JProtoObj p kvs) k = (case map_of kvs k of Some v \<Rightarrow> v | None \<Rightarrow> opt_prop p k)"
| "opt_prop v k = JUndefined"

text \<open>\<open>v.k\<close> without the \<open>?\<close>: a TypeError on \<open>null\<close> and \<open>undefined\<close>.\<close>

fun get_prop :: "jsval \<Rightarrow> string \<Rightarrow> jsval option" where
  "get_prop JUndefined k = None"
| "get_prop JNull k = None"
| "get_prop v k = Some (opt_prop v k)"



section \<open>Arithmetic on numbers\<close>

text \<open>
  A JavaScript number is an IEEE 754 double, and the result of an operation is the
  exact result rounded to the nearest double, ties to the even significand. A double
  has 53 significant bits; in the binade \<open>2 ^ e \<le> \<bar>r\<bar> < 2 ^ (e + 1)\<close> the doubles are the
  multiples of \<open>2 ^ (e - 52)\<close>, and below \<open>2 ^ - 1022\<close> the multiples of \<open>2 ^ - 1074\<close>. A
  rounded magnitude of \<open>2 ^ 1024\<close> or more is an infinity.
\<close>

definition round_half_even :: "real \<Rightarrow> int" where
  "round_half_even q =
     (let f = \<lfloor>q\<rfloor>; d = q - of_int f
      in if d < 1 / 2 then f else if 1 / 2 < d then f + 1 else if even f then f else f + 1)"

text \<open>
  \<open>binade n r\<close>: the largest exponent \<open>e\<close> from \<open>- 1022\<close> up to \<open>n - 1023\<close> with
  \<open>2 ^ e \<le> \<bar>r\<bar>\<close>, and \<open>- 1022\<close> when there is none.
\<close>

fun binade :: "nat \<Rightarrow> real \<Rightarrow> int" where
  "binade 0 r = - 1022"
| "binade (Suc n) r = (if 2 powi (int n - 1022) \<le> \<bar>r\<bar> then int n - 1022 else binade n r)"

definition round_to_double :: "real \<Rightarrow> real" where
  "round_to_double r =
     (let ulp = 2 powi (binade 2047 r - 52) in of_int (round_half_even (r / ulp)) * ulp)"

text \<open>The number an operation with the exact result \<open>r\<close> returns.\<close>

definition js_number :: "real \<Rightarrow> jsval" where
  "js_number r =
     (let d = round_to_double r
      in if 2 ^ 1024 \<le> d then JInfinity
         else if d \<le> - (2 ^ 1024) then JNegInfinity
         else JNum d)"

section \<open>Shape metadata (deliberatorium/shapeMeta)\<close>

text \<open>
  \<open>value.constructor === Object\<close>: the property \<open>constructor\<close> is looked up along the
  prototype chain. An own property of that name holds a value of this model, which is
  not the function \<open>Object\<close>; an array inherits \<open>Array\<close>; \<open>Object.prototype\<close> gives
  \<open>Object\<close>; a chain that ends in \<open>null\<close> gives nothing.
\<close>

fun constructor_is_Object :: "jsval \<Rightarrow> bool" where
  "constructor_is_Object (JObj kvs) = (map_of kvs ''constructor'' = None)"
| "constructor_is_Object (JProtoObj p kvs) =
     (map_of kvs ''constructor'' = None \<and> constructor_is_Object p)"
| "constructor_is_Object v = False"

text \<open>
  \<open>isPlainObject\<close>: \<open>typeof value === 'object'\<close>, not \<open>null\<close>, and the constructor is
  \<open>Object\<close> or the prototype is \<open>null\<close>. An array has the constructor \<open>Array\<close>; the values
  of \<open>JOther\<close> are no objects or have another constructor.
\<close>

fun isPlainObject :: "jsval \<Rightarrow> bool" where
  "isPlainObject (JObj kvs) = constructor_is_Object (JObj kvs)"
| "isPlainObject (JProtoObj p kvs) = (constructor_is_Object (JProtoObj p kvs) \<or> p = JNull)"
| "isPlainObject v = False"

text \<open>
  \<open>result[key] = v\<close> on the object the loop builds. The key is looked up along the
  prototype chain: found as a property of an object, or not found at all, the assignment
  replaces the own property of \<open>result\<close> where it stands or adds it last. The key
  \<open>__proto__\<close> that reaches \<open>Object.prototype\<close> finds the accessor there, whose setter
  makes \<open>v\<close> the prototype of \<open>result\<close> when \<open>v\<close> is an object or \<open>null\<close>, and does nothing
  otherwise. \<open>v\<close> is a value the sanitizer returned.
\<close>

fun reaches_proto_accessor :: "jsval \<Rightarrow> bool" where
  "reaches_proto_accessor (JObj kvs) = (map_of kvs ''__proto__'' = None)"
| "reaches_proto_accessor (JProtoObj p kvs) =
     (map_of kvs ''__proto__'' = None \<and> reaches_proto_accessor p)"
| "reaches_proto_accessor (JArr xs) = True"
| "reaches_proto_accessor v = False"

fun is_object_or_null :: "jsval \<Rightarrow> bool" where
  "is_object_or_null JNull = True"
| "is_object_or_null (JArr xs) = True"
| "is_object_or_null (JObj kvs) = True"
| "is_object_or_null (JProtoObj p kvs) = True"
| "is_object_or_null v = False"

fun own_entries :: "jsval \<Rightarrow> (string \<times> jsval) list" where
  "own_entries (JObj kvs) = kvs"
| "own_entries (JProtoObj p kvs) = kvs"
| "own_entries v = []"

fun set_prototype :: "jsval \<Rightarrow> jsval \<Rightarrow> jsval" where
  "set_prototype result p = JProtoObj p (own_entries result)"

fun set_own :: "jsval \<Rightarrow> string \<Rightarrow> jsval \<Rightarrow> jsval" where
  "set_own (JObj kvs) key v = JObj (AList.update key v kvs)"
| "set_own (JProtoObj p kvs) key v = JProtoObj p (AList.update key v kvs)"
| "set_own result key v = result"

definition assign :: "jsval \<Rightarrow> string \<Rightarrow> jsval \<Rightarrow> jsval" where
  "assign result key v =
     (if key = ''__proto__'' \<and> reaches_proto_accessor result
      then (if is_object_or_null v then set_prototype result v else result)
      else set_own result key v)"

text \<open>
  \<open>toString v\<close> is what the built-in \<open>String(value)\<close> does with a value that is no
  primitive, no array and no plain object: it runs the conversion methods of the value,
  which this model does not hold, and returns a string or throws a TypeError (\<open>None\<close>).

  \<open>toSerializableJsonValue\<close> returns a value or throws (\<open>None\<close>): where \<open>String\<close> throws,
  and at a reference back to an array or object the recursion is inside of, which it
  enters again and again until the call stack overflows (a RangeError).
\<close>

fun toSerializableJsonValue :: "(jsval \<Rightarrow> string option) \<Rightarrow> jsval \<Rightarrow> jsval option" where
  "toSerializableJsonValue toString JUndefined = Some JNull"
| "toSerializableJsonValue toString JNull = Some JNull"
| "toSerializableJsonValue toString (JStr s) = Some (JStr s)"
| "toSerializableJsonValue toString (JNum n) = Some (JNum n)"
| "toSerializableJsonValue toString JNaN = Some JNaN"
| "toSerializableJsonValue toString JInfinity = Some JInfinity"
| "toSerializableJsonValue toString JNegInfinity = Some JNegInfinity"
| "toSerializableJsonValue toString (JBool b) = Some (JBool b)"
| "toSerializableJsonValue toString (JArr xs) =
     map_option JArr (those (map (toSerializableJsonValue toString) xs))"
| "toSerializableJsonValue toString JCycle = None"
| "toSerializableJsonValue toString (JObj kvs) =
     (if isPlainObject (JObj kvs)
      then fold (\<lambda>(key, item) acc.
                   case acc of
                     None \<Rightarrow> None
                   | Some result \<Rightarrow>
                       if item = JUndefined then Some result
                       else (case toSerializableJsonValue toString item of
                               None \<Rightarrow> None
                             | Some v \<Rightarrow> Some (assign result key v)))
             kvs (Some (JObj []))
      else map_option JStr (toString (JObj kvs)))"
| "toSerializableJsonValue toString (JProtoObj p kvs) =
     (if isPlainObject (JProtoObj p kvs)
      then fold (\<lambda>(key, item) acc.
                   case acc of
                     None \<Rightarrow> None
                   | Some result \<Rightarrow>
                       if item = JUndefined then Some result
                       else (case toSerializableJsonValue toString item of
                               None \<Rightarrow> None
                             | Some v \<Rightarrow> Some (assign result key v)))
             kvs (Some (JObj []))
      else map_option JStr (toString (JProtoObj p kvs)))"
| "toSerializableJsonValue toString (JOther s) = map_option JStr (toString (JOther s))"

definition sanitizeShapeMeta :: "(jsval \<Rightarrow> string option) \<Rightarrow> jsval \<Rightarrow> jsval option" where
  "sanitizeShapeMeta toString meta =
     (if \<not> isPlainObject meta then Some (JObj [])
      else toSerializableJsonValue toString meta)"

text \<open>\<open>Date.now()\<close> is read from the caller: \<open>now\<close> is the millisecond count it returns.\<close>

definition createAiMeta :: "nat \<Rightarrow> (string \<times> jsval) list" where
  "createAiMeta now =
     [(''source'', JStr ''ai''), (''author'', JStr ''Deliberatorium Agent''),
      (''timestamp'', JNum (real now))]"

text \<open>
  A canvas shape, with the fields this program sets. \<open>props\<close> is the property list of the
  props object.
\<close>

record TLShape =
  shape_id :: string
  shape_type :: string
  shape_x :: real
  shape_y :: real
  props :: "(string \<times> jsval) list"
  meta :: jsval

text \<open>
  The object spread \<open>{...a, ...b}\<close>: the own properties of \<open>a\<close>, then each property of \<open>b\<close>
  defined over them. Only objects are spread in this program.
\<close>

definition spread :: "(string \<times> jsval) list \<Rightarrow> (string \<times> jsval) list \<Rightarrow> (string \<times> jsval) list" where
  "spread a b = fold (\<lambda>(k, v) result. AList.update k v result) b a"

definition has_key :: "string \<Rightarrow> (string \<times> jsval) list \<Rightarrow> bool" where
  "has_key k kvs = (map_of kvs k \<noteq> None)"

text \<open>\<open>applyAiStyle\<close> returns the styled shape, or throws where the sanitizer throws.\<close>

definition applyAiStyle :: "(jsval \<Rightarrow> string option) \<Rightarrow> nat \<Rightarrow> TLShape \<Rightarrow> TLShape option" where
  "applyAiStyle toString now shape =
     (let props1 = (if has_key ''color'' (props shape)
                    then AList.update ''color'' (JStr ''yellow'') (props shape)
                    else props shape);
          props2 = (if has_key ''fill'' props1 \<and>
                       (shape_type shape = ''geo'' \<or> shape_type shape = ''note'')
                    then AList.update ''fill'' (JStr ''solid'') props1
                    else props1);
          shape1 = shape\<lparr>props := props2\<rparr>
      in case sanitizeShapeMeta toString (meta shape1) of
           None \<Rightarrow> None
         | Some sanitized \<Rightarrow>
             Some (shape1\<lparr>meta := JObj (spread (own_entries sanitized) (createAiMeta now))\<rparr>))"

text \<open>
  What the claims mean by a plain JSON value: \<open>null\<close>, a boolean, a number, a string, an
  array of such values, or a plain object (an object as \<open>{}\<close> creates it, with the
  prototype \<open>Object.prototype\<close>) whose properties hold such values. \<open>NaN\<close> and the
  infinities are numbers.
\<close>

fun is_json :: "jsval \<Rightarrow> bool" where
  "is_json JNull = True"
| "is_json (JBool b) = True"
| "is_json (JNum n) = True"
| "is_json JNaN = True"
| "is_json JInfinity = True"
| "is_json JNegInfinity = True"
| "is_json (JStr s) = True"
| "is_json (JArr xs) = list_all is_json xs"
| "is_json (JObj kvs) = list_all (\<lambda>(k, v). is_json v) kvs"
| "is_json v = False"

section \<open>The live transcription hook: reconnection\<close>

datatype AssemblyAiStatus = Idle | Connecting | Listening | Reconnecting | Failed

text \<open>
  The timer \<open>window.setTimeout(() => connect(nextAttempt), timeout)\<close>: its delay in
  milliseconds and the attempt number its callback passes to \<open>connect\<close>.
\<close>

record timer =
  delay :: nat
  attempt :: nat

text \<open>
  The hook's state: the React state (\<open>status\<close>, \<open>isListening\<close>, \<open>error\<close>,
  \<open>liveTranscript\<close>, \<open>lastTurnSummary\<close>) and the refs. \<open>wsRef\<close> and the four audio refs
  hold resources of the browser; the model keeps whether each is set.
\<close>

record hook =
  status :: AssemblyAiStatus
  isListening :: bool
  error :: "string option"
  liveTranscript :: string
  lastTurnSummary :: string
  processedTurnIdsRef :: "string set"
  slotRef :: nat
  wsRef :: bool
  audioPipeline :: bool
  shouldReconnectRef :: bool
  reconnectTimeoutRef :: "timer option"

text \<open>The state the hook starts in: the initial values of \<open>useState\<close> and \<open>useRef\<close>.\<close>

definition initial_hook :: hook where
  "initial_hook =
     \<lparr>status = Idle, isListening = False, error = None, liveTranscript = [],
      lastTurnSummary = [], processedTurnIdsRef = {}, slotRef = 0, wsRef = False,
      audioPipeline = False, shouldReconnectRef = False, reconnectTimeoutRef = None\<rparr>"

definition clearAudioPipeline :: "hook \<Rightarrow> hook" where
  "clearAudioPipeline st = st\<lparr>audioPipeline := False\<rparr>"

text \<open>The handler \<open>ws.onclose\<close> installed by \<open>connect(attempt)\<close>.\<close>

definition ws_onclose :: "nat \<Rightarrow> hook \<Rightarrow> hook" where
  "ws_onclose att st =
     (let st1 = clearAudioPipeline st;
          st2 = st1\<lparr>wsRef := False\<rparr>;
          st3 = st2\<lparr>isListening := False\<rparr>
      in if \<not> shouldReconnectRef st3 then st3\<lparr>status := Idle\<rparr>
         else
           let nextAttempt = att + 1;
               timeout = min (1000 * 2 ^ (min nextAttempt 5)) 15000
           in st3\<lparr>reconnectTimeoutRef := Some \<lparr>delay = timeout, attempt = nextAttempt\<rparr>\<rparr>)"

section \<open>Agent actions\<close>

text \<open>
  The fields every streamed action carries. \<open>shapeId\<close> may be absent; \<open>intent\<close> is tested
  with \<open>typeof\<close> before use, so it is any value.
\<close>

record AgentAction =
  complete :: bool
  shapeId :: "string option"
  intent :: jsval

text \<open>
  \<open>AgentHelpers\<close> is not part of these sources: the two helpers that
  \<open>CreateConceptNodeActionUtil.sanitizeAction\<close> calls are taken as given.
  \<open>ensureValueIsNumber\<close> returns a number or \<open>null\<close>.
\<close>

record AgentHelpers =
  ensureShapeIdIsUnique :: "string \<Rightarrow> string"
  ensureValueIsNumber :: "jsval \<Rightarrow> real option"

text \<open>\<open>a ?? b\<close>: \<open>b\<close> when \<open>a\<close> is \<open>null\<close> or \<open>undefined\<close>.\<close>

fun nullish :: "'a option \<Rightarrow> 'a \<Rightarrow> 'a" where
  "nullish (Some v) d = v"
| "nullish None d = d"

text \<open>\<open>action.shapeId\<close> as a condition: present and not the empty string.\<close>

fun truthy_id :: "string option \<Rightarrow> bool" where
  "truthy_id None = False"
| "truthy_id (Some s) = (s \<noteq> [])"

subsection \<open>CreateConceptNodeActionUtil\<close>

text \<open>
  The action's \<open>w\<close>, \<open>h\<close>, \<open>x\<close>, \<open>y\<close>, \<open>note\<close> and \<open>label\<close>. The proposed numbers are
  whatever the model streamed; after \<open>sanitizeAction\<close> they are numbers.
\<close>

record CreateConceptNodeAction = AgentAction +
  node_w :: jsval
  node_h :: jsval
  node_x :: jsval
  node_y :: jsval
  node_note :: jsval
  node_label :: string

definition CreateConceptNode_sanitizeAction ::
  "CreateConceptNodeAction \<Rightarrow> AgentHelpers \<Rightarrow> CreateConceptNodeAction" where
  "CreateConceptNode_sanitizeAction action helpers =
     (let a1 = (if truthy_id (shapeId action)
                then action\<lparr>shapeId := Some (ensureShapeIdIsUnique helpers (the (shapeId action)))\<rparr>
                else action);
          a2 = a1\<lparr>node_w := JNum (max 180 (nullish (ensureValueIsNumber helpers (node_w a1)) 240))\<rparr>;
          a3 = a2\<lparr>node_h := JNum (max 100 (nullish (ensureValueIsNumber helpers (node_h a2)) 140))\<rparr>;
          a4 = a3\<lparr>node_x := JNum (nullish (ensureValueIsNumber helpers (node_x a3)) 0)\<rparr>;
          a5 = a4\<lparr>node_y := JNum (nullish (ensureValueIsNumber helpers (node_y a4)) 0)\<rparr>
      in a5)"

subsection \<open>The editor\<close>

text \<open>
  The canvas toolkit's box, with the getters the hook reads: \<open>maxX\<close> is its right edge,
  \<open>minY\<close> its top edge.
\<close>

record box =
  box_x :: real
  box_y :: real
  box_w :: real
  box_h :: real

text \<open>
  The page bounds of a shape, by what \<open>applyAction\<close> reads of them: the two coordinates
  of \<open>bounds.center\<close>, finite numbers the toolkit computed.
\<close>

record page_bounds =
  center_x :: real
  center_y :: real

definition maxX :: "box \<Rightarrow> real" where
  "maxX b = box_x b + box_w b"

definition minY :: "box \<Rightarrow> real" where
  "minY b = box_y b"

text \<open>
  The editor as the actions see it: the shapes of the document by id, the page bounds
  the toolkit computed for them, and the \<open>createShape\<close> calls issued so far.
\<close>

record editor =
  getShape :: "string \<rightharpoonup> TLShape"
  getShapePageBounds :: "string \<rightharpoonup> page_bounds"
  createShapeCalls :: "TLShape list"

definition createShape :: "TLShape \<Rightarrow> editor \<Rightarrow> editor" where
  "createShape shape ed = ed\<lparr>createShapeCalls := createShapeCalls ed @ [shape]\<rparr>"

text \<open>
  What the toolkit, the clock and the language supply to one call of \<open>applyAction\<close>:
  the rich text of a label, the id \<open>createShapeId()\<close> draws, \<open>Date.now()\<close>, and the
  built-in \<open>String\<close> on the values the sanitizer converts.
\<close>

record toolkit =
  toRichText :: "string \<Rightarrow> jsval"
  createShapeId :: string
  dateNow :: nat
  builtinString :: "jsval \<Rightarrow> string option"

subsection \<open>CreateRelationshipEdgeActionUtil\<close>

record CreateRelationshipEdgeAction = AgentAction +
  fromShapeId :: "string option"
  toShapeId :: "string option"
  bend :: real
  edgeLabel :: "string option"

text \<open>An id in a template literal: \<open>null\<close> prints as \<open>null\<close>.\<close>

fun template_id :: "string option \<Rightarrow> string" where
  "template_id None = ''null''"
| "template_id (Some s) = s"

fun id_value :: "string option \<Rightarrow> jsval" where
  "id_value None = JNull"
| "id_value (Some s) = JStr s"

fun string_or_undefined :: "jsval \<Rightarrow> jsval" where
  "string_or_undefined (JStr s) = JStr s"
| "string_or_undefined v = JUndefined"

text \<open>
  The shape \<open>applyAction\<close> builds once both bounds are known (the lines from
  \<open>const start\<close> to the call of \<open>applyAiStyle\<close>), unless the sanitizer throws.
  \<open>Math.min\<close> of two finite numbers is one of them; each offset is a difference of two
  numbers, rounded as the subtraction rounds it.
\<close>

definition edge_shape ::
  "toolkit \<Rightarrow> CreateRelationshipEdgeAction \<Rightarrow> page_bounds \<Rightarrow> page_bounds \<Rightarrow>
   TLShape option" where
  "edge_shape tk action fromBounds toBounds =
     (let start_x = center_x fromBounds; start_y = center_y fromBounds;
          end_x = center_x toBounds; end_y = center_y toBounds;
          px = min start_x end_x;
          py = min start_y end_y;
          newId = (if truthy_id (shapeId action)
                   then ''shape:'' @ the (shapeId action)
                   else createShapeId tk)
      in case sanitizeShapeMeta (builtinString tk) (JObj
                [(''note'', string_or_undefined (intent action)),
                 (''kind'', JStr ''relationship-edge''),
                 (''fromShapeId'', id_value (fromShapeId action)),
                 (''toShapeId'', id_value (toShapeId action))]) of
           None \<Rightarrow> None
         | Some m \<Rightarrow>
             applyAiStyle (builtinString tk) (dateNow tk)
               \<lparr>shape_id = newId, shape_type = ''arrow'',
                shape_x = px, shape_y = py,
                props =
                  [(''start'', JObj [(''x'', js_number (start_x - px)),
                                     (''y'', js_number (start_y - py))]),
                   (''end'', JObj [(''x'', js_number (end_x - px)),
                                   (''y'', js_number (end_y - py))]),
                   (''arrowheadStart'', JStr ''none''),
                   (''arrowheadEnd'', JStr ''arrow''),
                   (''bend'', JNum (bend action)),
                   (''dash'', JStr ''draw''),
                   (''color'', JStr ''yellow''),
                   (''labelColor'', JStr ''yellow''),
                   (''fill'', JStr ''none''),
                   (''font'', JStr ''draw''),
                   (''size'', JStr ''s''),
                   (''richText'', toRichText tk (nullish (edgeLabel action) []))],
                meta = m\<rparr>)"

text \<open>\<open>applyAction\<close> returns the editor it leaves, or throws (\<open>None\<close>).\<close>

definition CreateRelationshipEdge_applyAction ::
  "toolkit \<Rightarrow> CreateRelationshipEdgeAction \<Rightarrow> editor \<Rightarrow> editor option" where
  "CreateRelationshipEdge_applyAction tk action ed =
     (if \<not> complete action then Some ed
      else
        let fromId = ''shape:'' @ template_id (fromShapeId action);
            toId = ''shape:'' @ template_id (toShapeId action)
        in case (getShape ed fromId, getShape ed toId) of
             (Some fromShape, Some toShape) \<Rightarrow>
               (case (getShapePageBounds ed (shape_id fromShape),
                      getShapePageBounds ed (shape_id toShape)) of
                  (Some fromBounds, Some toBounds) \<Rightarrow>
                    (case edge_shape tk action fromBounds toBounds of
                       None \<Rightarrow> None
                     | Some shape \<Rightarrow> Some (createShape shape ed))
                | _ \<Rightarrow> Some ed)
           | _ \<Rightarrow> Some ed)"

text \<open>
  The condition of the claims: the action is complete, and both endpoint shapes and
  their page bounds resolve.
\<close>

definition fromShape_of :: "CreateRelationshipEdgeAction \<Rightarrow> editor \<Rightarrow> TLShape option" where
  "fromShape_of action ed = getShape ed (''shape:'' @ template_id (fromShapeId action))"

definition toShape_of :: "CreateRelationshipEdgeAction \<Rightarrow> editor \<Rightarrow> TLShape option" where
  "toShape_of action ed = getShape ed (''shape:'' @ template_id (toShapeId action))"

definition bounds_of :: "TLShape option \<Rightarrow> editor \<Rightarrow> page_bounds option" where
  "bounds_of sh ed = (case sh of None \<Rightarrow> None | Some s \<Rightarrow> getShapePageBounds ed (shape_id s))"

definition edge_resolves :: "CreateRelationshipEdgeAction \<Rightarrow> editor \<Rightarrow> bool" where
  "edge_resolves action ed =
     (complete action \<and>
      bounds_of (fromShape_of action ed) ed \<noteq> None \<and>
      bounds_of (toShape_of action ed) ed \<noteq> None)"

section \<open>Workspace storage (deliberatorium/storage)\<close>

text \<open>
  A string kept in \<open>localStorage\<close>, by what the loaders do with it: \<open>!raw\<close> holds of the
  empty string, \<open>JSON.parse\<close> throws on \<open>Unparseable\<close> and returns \<open>v\<close> on \<open>Document v\<close>.
  \<open>JSON.stringify\<close> of a JSON value \<open>v\<close> writes a string that parses back to \<open>v\<close>, so a
  save stores \<open>Document v\<close>; the storage has no quota, so \<open>setItem\<close> always stores. The
  environment is \<open>None\<close> where \<open>window\<close> is undefined.
\<close>

datatype raw = EmptyString | Unparseable | Document jsval

type_synonym localStorage = "string \<rightharpoonup> raw"

type_synonym window = "localStorage option"

definition READING_KEY :: string where
  "READING_KEY = ''deliberatorium.readings.v1''"





definition MAX_READING_CHARS :: nat where
  "MAX_READING_CHARS = 18000"

record ReadingDocument =
  reading_id :: string
  reading_title :: string
  reading_content :: string
  reading_createdAt :: nat










definition valid_reading :: "jsval \<Rightarrow> bool" where
  "valid_reading item =
     (truthy (opt_prop item ''id'') \<and> truthy (opt_prop item ''title'') \<and>
      truthy (opt_prop item ''content''))"

definition loadReadings :: "window \<Rightarrow> jsval list" where
  "loadReadings win =
     (case win of
        None \<Rightarrow> []
      | Some storage \<Rightarrow>
          (case storage READING_KEY of
             None \<Rightarrow> []
           | Some EmptyString \<Rightarrow> []
           | Some Unparseable \<Rightarrow> []
           | Some (Document parsed) \<Rightarrow>
               (case parsed of
                  JArr items \<Rightarrow> filter valid_reading items
                | _ \<Rightarrow> [])))"

text \<open>The object \<open>JSON.stringify\<close> writes for a reading document.\<close>

definition reading_json :: "ReadingDocument \<Rightarrow> jsval" where
  "reading_json r =
     JObj [(''id'', JStr (reading_id r)), (''title'', JStr (reading_title r)),
           (''content'', JStr (reading_content r)),
           (''createdAt'', JNum (real (reading_createdAt r)))]"

definition saveReadings :: "ReadingDocument list \<Rightarrow> window \<Rightarrow> window" where
  "saveReadings readings win =
     (case win of
        None \<Rightarrow> None
      | Some storage \<Rightarrow> Some (storage(READING_KEY \<mapsto> Document (JArr (map reading_json readings)))))"








subsection \<open>Reading documents\<close>

text \<open>
  The characters \<open>\s\<close> and \<open>trim\<close> treat as white space, among the code units a \<open>char\<close>
  can hold: tab, line feed, vertical tab, form feed, carriage return, space and the
  no-break space.
\<close>

definition is_space :: "char \<Rightarrow> bool" where
  "is_space c = (of_char c \<in> {9, 10, 11, 12, 13, 32, 160 :: nat})"

text \<open>\<open>content.replace(/\s+/g, ' ')\<close>: every maximal run of white space becomes one space.\<close>

function collapse_ws :: "string \<Rightarrow> string" where
  "collapse_ws [] = []"
| "collapse_ws (c # cs) =
     (if is_space c then CHR '' '' # collapse_ws (dropWhile is_space cs)
      else c # collapse_ws cs)"
  by pat_completeness auto
termination
  by (relation "measure length") (auto simp: length_dropWhile_le less_Suc_eq_le)

definition trim :: "string \<Rightarrow> string" where
  "trim s = rev (dropWhile is_space (rev (dropWhile is_space s)))"

text \<open>The decimal digits of a number in a template literal.\<close>

function show_nat :: "nat \<Rightarrow> string" where
  "show_nat n =
     (if n < 10 then [char_of (48 + n)]
      else show_nat (n div 10) @ [char_of (48 + n mod 10)])"
  by pat_completeness auto
termination
  by (relation "measure (\<lambda>n. n)") auto

declare show_nat.simps [simp del]

text \<open>
  \<open>rnd\<close> is what \<open>Math.random().toString(36).slice(2, 8)\<close> returns; the clock is read
  for the id and again for \<open>createdAt\<close>.
\<close>

definition createReadingDocument ::
  "(nat \<Rightarrow> nat) \<Rightarrow> string \<Rightarrow> string \<Rightarrow> string \<Rightarrow> ReadingDocument" where
  "createReadingDocument clock rnd fileName content =
     (let normalized = take MAX_READING_CHARS (trim (collapse_ws content))
      in \<lparr>reading_id = show_nat (clock 0) @ ''-'' @ rnd,
          reading_title = fileName,
          reading_content = normalized,
          reading_createdAt = clock 1\<rparr>)"

section \<open>The reading context part (parts/ReadingContextPartUtil)\<close>

definition MAX_CONTEXT_ITEMS :: nat where
  "MAX_CONTEXT_ITEMS = 8"

definition MAX_CONTEXT_READING_CHARS :: nat where
  "MAX_CONTEXT_READING_CHARS = 3500"

record ContextReading =
  ctx_id :: jsval
  ctx_title :: jsval
  ctx_createdAt :: jsval
  ctx_content :: jsval

text \<open>
  \<open>reading.content.slice(0, n)\<close>: strings and arrays have \<open>slice\<close>; on any other truthy
  value the call is a TypeError (\<open>None\<close>).
\<close>

fun slice_from_0 :: "nat \<Rightarrow> jsval \<Rightarrow> jsval option" where
  "slice_from_0 n (JStr s) = Some (JStr (take n s))"
| "slice_from_0 n (JArr xs) = Some (JArr (take n xs))"
| "slice_from_0 n v = None"

text \<open>\<open>xs.slice(-n)\<close>: the last \<open>n\<close> elements.\<close>

definition slice_last :: "nat \<Rightarrow> 'a list \<Rightarrow> 'a list" where
  "slice_last n xs = drop (length xs - n) xs"

definition context_reading :: "jsval \<Rightarrow> ContextReading option" where
  "context_reading reading =
     (case slice_from_0 MAX_CONTEXT_READING_CHARS (opt_prop reading ''content'') of
        None \<Rightarrow> None
      | Some c \<Rightarrow>
          Some \<lparr>ctx_id = opt_prop reading ''id'', ctx_title = opt_prop reading ''title'',
                ctx_createdAt = opt_prop reading ''createdAt'', ctx_content = c\<rparr>)"

text \<open>The \<open>readings\<close> of the part \<open>getPart\<close> returns; \<open>None\<close> when the map throws.\<close>

definition getPart :: "window \<Rightarrow> ContextReading list option" where
  "getPart win =
     those (map context_reading (rev (slice_last MAX_CONTEXT_ITEMS (loadReadings win))))"

section \<open>The live transcription hook: finalized turns\<close>

text \<open>
  A message of the transcription service, as the interface \<open>AssemblyAiTurnMessage\<close>
  declares it: every field is optional. \<open>turn_order\<close> is the integer counter of the
  service.
\<close>

record AssemblyAiTurnMessage =
  msg_type :: "string option"
  transcript :: "string option"
  end_of_turn :: "bool option"
  turn_is_formatted :: "bool option"
  turn_order :: "int option"
  turn_id :: "string option"
  speaker :: "string option"
  speaker_id :: "string option"

definition CARD_WIDTH :: real where
  "CARD_WIDTH = 320"

definition CARD_HEIGHT :: real where
  "CARD_HEIGHT = 140"

definition CARD_GAP :: real where
  "CARD_GAP = 24"

text \<open>The request handed to \<open>agent.schedule\<close>.\<close>

record AgentRequest =
  req_source :: string
  req_bounds :: box
  req_contextItems :: "jsval list"
  req_userMessages :: "string list"
  req_agentMessages :: "string list"

text \<open>
  The agent as the hook uses it: the viewport of its editor, the items of its context,
  and the requests scheduled so far.
\<close>

record agent =
  viewportPageBounds :: box
  contextItems :: "jsval list"
  scheduled :: "AgentRequest list"

definition schedule :: "AgentRequest \<Rightarrow> agent \<Rightarrow> agent" where
  "schedule request ag = ag\<lparr>scheduled := scheduled ag @ [request]\<rparr>"

text \<open>\<open>getPlacementBounds\<close> returns the box and advances \<open>slotRef\<close>.\<close>

definition getPlacementBounds :: "agent \<Rightarrow> hook \<Rightarrow> box \<times> hook" where
  "getPlacementBounds ag st =
     (let viewport = viewportPageBounds ag;
          cardsPerColumn =
            max 1 (\<lfloor>(box_h viewport - CARD_GAP * 2) / (CARD_HEIGHT + CARD_GAP)\<rfloor>);
          slot = int (slotRef st);
          st1 = st\<lparr>slotRef := slotRef st + 1\<rparr>;
          column = slot div cardsPerColumn;
          row = slot mod cardsPerColumn;
          laneX = maxX viewport - CARD_WIDTH - CARD_GAP;
          bx = laneX + real_of_int column * (CARD_WIDTH + CARD_GAP);
          ty = minY viewport + CARD_GAP + real_of_int row * (CARD_HEIGHT + CARD_GAP)
      in (\<lparr>box_x = bx - 16, box_y = ty - 16, box_w = CARD_WIDTH + 32, box_h = CARD_HEIGHT + 32\<rparr>,
          st1))"

definition show_int :: "int \<Rightarrow> string" where
  "show_int i = (if i < 0 then ''-'' @ show_nat (nat (- i)) else show_nat (nat i))"

text \<open>\<open>lines.join('\n')\<close>.\<close>

fun join_lines :: "string list \<Rightarrow> string" where
  "join_lines [] = []"
| "join_lines [l] = l"
| "join_lines (l # ls) = l @ [CHR 0x0A] @ join_lines ls"

definition triple_quote :: string where
  "triple_quote = [CHR 0x22, CHR 0x22, CHR 0x22]"

text \<open>
  The id under which a turn is remembered: its own \<open>id\<close>, else \<open>turn-\<close> and its order,
  else \<open>turn-\<close>, the clock and the first 20 characters of the transcript.
\<close>

definition turnId_of :: "nat \<Rightarrow> AssemblyAiTurnMessage \<Rightarrow> string \<Rightarrow> string" where
  "turnId_of now turn said =
     (case turn_id turn of
        Some i \<Rightarrow> i
      | None \<Rightarrow>
          (case turn_order turn of
             Some n \<Rightarrow> ''turn-'' @ show_int n
           | None \<Rightarrow> ''turn-'' @ show_nat now @ ''-'' @ take 20 said))"

definition queueTurnAsNotecard ::
  "nat \<Rightarrow> AssemblyAiTurnMessage \<Rightarrow> hook \<times> agent \<Rightarrow> hook \<times> agent" where
  "queueTurnAsNotecard now turn sa =
     (let st = fst sa; ag = snd sa in
      case map_option trim (transcript turn) of
        None \<Rightarrow> sa
      | Some said \<Rightarrow>
          if said = [] then sa
          else
            let turnId = turnId_of now turn said in
            if turnId \<in> processedTurnIdsRef st then sa
            else
              let st1 = st\<lparr>processedTurnIdsRef := insert turnId (processedTurnIdsRef st)\<rparr>;
                  speakerLabel = nullish (speaker turn) (nullish (speaker_id turn) ''Speaker'');
                  placed = getPlacementBounds ag st1;
                  st2 = (snd placed)\<lparr>lastTurnSummary := speakerLabel @ '': '' @ said\<rparr>;
                  request =
                    \<lparr>req_source = ''self'',
                     req_bounds = fst placed,
                     req_contextItems = contextItems ag,
                     req_userMessages = [''Auto note ('' @ speakerLabel @ '')''],
                     req_agentMessages =
                       [join_lines
                          [''You are processing one finalized speaker turn from a live discussion.'',
                           ''Create exactly one new notecard as a concept node.'',
                           ''Required action constraints:'',
                           ''- Use exactly one create-concept-node action.'',
                           ''- Do not create edges.'',
                           ''- Do not move, update, or delete existing shapes.'',
                           ''- Place the card fully within the provided viewport bounds.'',
                           ''- Keep label concise (max 120 characters), capturing the single strongest point.'',
                           ''- Optional note may include one brief supporting detail (max 220 characters).'',
                           ''Speaker: '' @ speakerLabel,
                           ''Turn transcript: '' @ triple_quote @ said @ triple_quote]]\<rparr>
              in (st2, schedule request ag))"

text \<open>
  \<open>handleSocketMessage\<close> on what \<open>JSON.parse\<close> made of the frame: \<open>None\<close> when it threw,
  and when it returned \<open>null\<close>, where reading \<open>message.type\<close> throws: either way the
  handler ends with the state as it was. \<open>now\<close> is the clock at the time of the call.
\<close>

definition handleSocketMessage ::
  "nat \<Rightarrow> AssemblyAiTurnMessage option \<Rightarrow> hook \<times> agent \<Rightarrow> hook \<times> agent" where
  "handleSocketMessage now parsed sa =
     (case parsed of
        None \<Rightarrow> sa
      | Some message \<Rightarrow>
          if msg_type message = Some ''Turn'' \<and> transcript message \<noteq> None then
            if nullish (end_of_turn message) False \<or> nullish (turn_is_formatted message) False
            then queueTurnAsNotecard now message ((fst sa)\<lparr>liveTranscript := []\<rparr>, snd sa)
            else ((fst sa)\<lparr>liveTranscript := the (transcript message)\<rparr>, snd sa)
          else sa)"

text \<open>
  The messages of a connection, each with the clock at its arrival, handled in order.
  \<open>dispatched\<close> lists the messages whose handling scheduled a request.
\<close>

fun handle_all ::
  "(nat \<times> AssemblyAiTurnMessage option) list \<Rightarrow> hook \<times> agent \<Rightarrow> hook \<times> agent" where
  "handle_all [] sa = sa"
| "handle_all ((now, parsed) # evs) sa = handle_all evs (handleSocketMessage now parsed sa)"

fun dispatched ::
  "(nat \<times> AssemblyAiTurnMessage option) list \<Rightarrow> hook \<times> agent \<Rightarrow>
   AssemblyAiTurnMessage option list" where
  "dispatched [] sa = []"
| "dispatched ((now, parsed) # evs) sa =
     (let sa' = handleSocketMessage now parsed sa
      in (if length (scheduled (snd sa')) > length (scheduled (snd sa)) then [parsed] else []) @
         dispatched evs sa')"

section \<open>The worker's token route (worker/routes/assemblyAiToken)\<close>

definition DEFAULT_TOKEN_DURATION_SECONDS :: nat where
  "DEFAULT_TOKEN_DURATION_SECONDS = 600"

record Environment =
  ASSEMBLYAI_API_KEY :: "string option"

text \<open>
  What the upstream \<open>fetch\<close> does: it rejects, or resolves with a response whose
  \<open>text()\<close> and \<open>json()\<close> resolve with a value or reject (\<open>None\<close>).
\<close>

record UpstreamResponse =
  resp_ok :: bool
  resp_status :: nat
  resp_text :: "string option"
  resp_json :: "jsval option"

datatype fetch_outcome = Rejects | Resolves UpstreamResponse

datatype exception = FetchRejected | BodyRejected | TypeError

text \<open>\<open>Response.json(body, { status })\<close>; the status is 200 when none is given.\<close>

record Response =
  status_code :: nat
  response_body :: jsval

definition token_url :: string where
  "token_url =
     ''https://streaming.assemblyai.com/v3/token?expires_in_seconds='' @
       show_nat DEFAULT_TOKEN_DURATION_SECONDS"

definition is_nullish :: "jsval \<Rightarrow> bool" where
  "is_nullish v = (v = JUndefined \<or> v = JNull)"

text \<open>
  \<open>fetch url authorization\<close> is the outcome of the GET request with that
  \<open>Authorization\<close> header. The route returns a response or throws.
\<close>

definition assemblyAiToken ::
  "(string \<Rightarrow> string \<Rightarrow> fetch_outcome) \<Rightarrow> Environment \<Rightarrow> exception + Response" where
  "assemblyAiToken fetch env =
     (if \<not> truthy_id (ASSEMBLYAI_API_KEY env)
      then Inr \<lparr>status_code = 500,
                response_body = JObj [(''error'', JStr ''AssemblyAI key is not configured.'')]\<rparr>
      else
        case fetch token_url (the (ASSEMBLYAI_API_KEY env)) of
          Rejects \<Rightarrow> Inl FetchRejected
        | Resolves tokenResponse \<Rightarrow>
            if \<not> resp_ok tokenResponse then
              (case resp_text tokenResponse of
                 None \<Rightarrow> Inl BodyRejected
               | Some body \<Rightarrow>
                   Inr \<lparr>status_code = 502,
                        response_body = JObj [(''error'', JStr ''Failed to get AssemblyAI token.'')]\<rparr>)
            else
              (case resp_json tokenResponse of
                 None \<Rightarrow> Inl BodyRejected
               | Some data \<Rightarrow>
                   (case get_prop data ''token'' of
                      None \<Rightarrow> Inl TypeError
                    | Some token \<Rightarrow>
                        if \<not> truthy token then
                          Inr \<lparr>status_code = 502,
                               response_body =
                                 JObj [(''error'',
                                        (if is_nullish (opt_prop data ''error'')
                                         then JStr ''AssemblyAI token was empty.''
                                         else opt_prop data ''error''))]\<rparr>
                        else
                          Inr \<lparr>status_code = 200,
                               response_body =
                                 JObj [(''token'', token),
                                       (''expiresInSeconds'',
                                        JNum (real DEFAULT_TOKEN_DURATION_SECONDS))]\<rparr>)))"

section \<open>Concrete inputs\<close>

text \<open>
  Inputs on which the definitions are evaluated below. The helpers pass ids through
  and keep a number; the toolkit wraps a label in a string, and \<open>String\<close> converts every
  object to \<open>[object Object]\<close>.
\<close>

definition plain_helpers :: AgentHelpers where
  "plain_helpers =
     \<lparr>ensureShapeIdIsUnique = (\<lambda>s. s),
      ensureValueIsNumber = (\<lambda>v. case v of JNum n \<Rightarrow> Some n | _ \<Rightarrow> None)\<rparr>"

definition small_node :: "jsval \<Rightarrow> jsval \<Rightarrow> CreateConceptNodeAction" where
  "small_node pw ph =
     \<lparr>complete = True, shapeId = None, intent = JStr ''a point'',
      node_w = pw, node_h = ph, node_x = JNum 10, node_y = JUndefined,
      node_note = JUndefined, node_label = ''Point''\<rparr>"

definition plain_toolkit :: toolkit where
  "plain_toolkit =
     \<lparr>toRichText = (\<lambda>s. JStr s), createShapeId = ''shape:fresh'', dateNow = 1700000000000,
      builtinString = (\<lambda>v. Some ''[object Object]'')\<rparr>"

text \<open>A \<open>String\<close> that returns the name of a \<open>JOther\<close> and \<open>[object Object]\<close> otherwise.\<close>

definition naming :: "jsval \<Rightarrow> string option" where
  "naming v = (case v of JOther s \<Rightarrow> Some s | _ \<Rightarrow> Some ''[object Object]'')"

definition card :: "string \<Rightarrow> TLShape" where
  "card sid =
     \<lparr>shape_id = sid, shape_type = ''geo'', shape_x = 0, shape_y = 0,
      props = [(''geo'', JStr ''rectangle'')], meta = JObj []\<rparr>"

text \<open>An editor with the shapes \<open>a\<close> and \<open>b\<close>, both with page bounds, and no shape \<open>c\<close>.\<close>

definition two_cards :: editor where
  "two_cards =
     \<lparr>getShape = [''shape:a'' \<mapsto> card ''shape:a'', ''shape:b'' \<mapsto> card ''shape:b''],
      getShapePageBounds =
        [''shape:a'' \<mapsto> \<lparr>center_x = 50, center_y = 25\<rparr>,
         ''shape:b'' \<mapsto> \<lparr>center_x = 220, center_y = - 80\<rparr>],
      createShapeCalls = []\<rparr>"

definition edge_between :: "string \<Rightarrow> string \<Rightarrow> bool \<Rightarrow> CreateRelationshipEdgeAction" where
  "edge_between a b done =
     \<lparr>complete = done, shapeId = None, intent = JStr ''supports'',
      fromShapeId = Some a, toShapeId = Some b, bend = 0, edgeLabel = None\<rparr>"

text \<open>
  An editor whose shapes \<open>a\<close> and \<open>b\<close> have their centers at the doubles written \<open>0.2\<close> and
  \<open>0.9\<close> on the horizontal axis.
\<close>

definition fraction_cards :: editor where
  "fraction_cards =
     \<lparr>getShape = [''shape:a'' \<mapsto> card ''shape:a'', ''shape:b'' \<mapsto> card ''shape:b''],
      getShapePageBounds =
        [''shape:a'' \<mapsto> \<lparr>center_x = 3602879701896397 / 2 ^ 54, center_y = 0\<rparr>,
         ''shape:b'' \<mapsto> \<lparr>center_x = 8106479329266893 / 2 ^ 53, center_y = 0\<rparr>],
      createShapeCalls = []\<rparr>"

text \<open>A clock that advances by one millisecond at each read.\<close>

definition ticking :: "nat \<Rightarrow> nat" where
  "ticking k = 1700000000000 + k"

definition reading :: "string \<Rightarrow> string \<Rightarrow> ReadingDocument" where
  "reading rid body =
     \<lparr>reading_id = rid, reading_title = ''Notes'', reading_content = body,
      reading_createdAt = 1700000000000\<rparr>"


definition final_turn :: "string \<Rightarrow> string \<Rightarrow> AssemblyAiTurnMessage" where
  "final_turn i said =
     \<lparr>msg_type = Some ''Turn'', transcript = Some said, end_of_turn = Some True,
      turn_is_formatted = None, turn_order = None, turn_id = Some i,
      speaker = None, speaker_id = None\<rparr>"

definition quiet_agent :: agent where
  "quiet_agent =
     \<lparr>viewportPageBounds = \<lparr>box_x = 0, box_y = 0, box_w = 1200, box_h = 800\<rparr>,
      contextItems = [], scheduled = []\<rparr>"

text \<open>
  Four final turns: the id \<open>t1\<close> twice, then \<open>t2\<close> with a blank transcript and with a
  spoken one.
\<close>

definition repeated_turns :: "(nat \<times> AssemblyAiTurnMessage option) list" where
  "repeated_turns =
     [(1, Some (final_turn ''t1'' ''first point'')),
      (2, Some (final_turn ''t1'' ''first point.'')),
      (3, Some (final_turn ''t2'' ''  '')),
      (4, Some (final_turn ''t2'' ''second''))]"

definition upstream :: "bool \<Rightarrow> jsval option \<Rightarrow> string \<Rightarrow> string \<Rightarrow> fetch_outcome" where
  "upstream ok body url authorization =
     Resolves \<lparr>resp_ok = ok, resp_status = (if ok then 200 else 401),
               resp_text = Some ''body'', resp_json = body\<rparr>"

section \<open>The conditions of the claims\<close>

text \<open>A reading document whose id, title and content are all non-empty strings.\<close>

definition nonempty_reading :: "ReadingDocument \<Rightarrow> bool" where
  "nonempty_reading r =
     (reading_id r \<noteq> [] \<and> reading_title r \<noteq> [] \<and> reading_content r \<noteq> [])"

text \<open>The context entry of a stored reading document: its content cut at 3,500.\<close>

definition context_of :: "ReadingDocument \<Rightarrow> ContextReading" where
  "context_of r =
     \<lparr>ctx_id = JStr (reading_id r), ctx_title = JStr (reading_title r),
      ctx_createdAt = JNum (real (reading_createdAt r)),
      ctx_content = JStr (take MAX_CONTEXT_READING_CHARS (reading_content r))\<rparr>"




text \<open>
  The inputs on which the sanitizer returns: \<open>String\<close> converts every value it is asked
  to convert, and no array or plain object holds a reference back to an array or object
  around it. Arrays and plain objects are entered; any other object is converted whole.
\<close>

fun convertible :: "(jsval \<Rightarrow> string option) \<Rightarrow> jsval \<Rightarrow> bool" where
  "convertible toString (JArr xs) = list_all (convertible toString) xs"
| "convertible toString JCycle = False"
| "convertible toString (JObj kvs) =
     (if isPlainObject (JObj kvs) then list_all (\<lambda>(k, v). convertible toString v) kvs
      else toString (JObj kvs) \<noteq> None)"
| "convertible toString (JProtoObj p kvs) =
     (if isPlainObject (JProtoObj p kvs) then list_all (\<lambda>(k, v). convertible toString v) kvs
      else toString (JProtoObj p kvs) \<noteq> None)"
| "convertible toString (JOther s) = (toString (JOther s) \<noteq> None)"
| "convertible toString v = True"

text \<open>
  The keys of each plain object that is entered are distinct, as the keys of an object
  are, and none is \<open>__proto__\<close>.
\<close>

fun well_keyed :: "jsval \<Rightarrow> bool" where
  "well_keyed (JArr xs) = list_all well_keyed xs"
| "well_keyed (JObj kvs) =
     (if isPlainObject (JObj kvs)
      then distinct (map fst kvs) \<and> ''__proto__'' \<notin> set (map fst kvs) \<and>
           list_all (\<lambda>(k, v). well_keyed v) kvs
      else True)"
| "well_keyed (JProtoObj p kvs) =
     (if isPlainObject (JProtoObj p kvs)
      then distinct (map fst kvs) \<and> ''__proto__'' \<notin> set (map fst kvs) \<and>
           list_all (\<lambda>(k, v). well_keyed v) kvs
      else True)"
| "well_keyed v = True"

text \<open>
  A value that is plain JSON already: no \<open>undefined\<close>, and every object in it has the
  prototype \<open>Object.prototype\<close>, distinct keys, and neither the key \<open>__proto__\<close> nor
  the key \<open>constructor\<close>.
\<close>

fun tidy :: "jsval \<Rightarrow> bool" where
  "tidy JNull = True"
| "tidy (JBool b) = True"
| "tidy (JNum n) = True"
| "tidy JNaN = True"
| "tidy JInfinity = True"
| "tidy JNegInfinity = True"
| "tidy (JStr s) = True"
| "tidy (JArr xs) = list_all tidy xs"
| "tidy (JObj kvs) =
     (distinct (map fst kvs) \<and> ''__proto__'' \<notin> set (map fst kvs) \<and>
      ''constructor'' \<notin> set (map fst kvs) \<and> list_all (\<lambda>(k, v). tidy v) kvs)"
| "tidy v = False"

text \<open>A value the sanitizer converts whole: an object that is no array and not plain.\<close>

fun converted_whole :: "jsval \<Rightarrow> bool" where
  "converted_whole (JObj kvs) = (\<not> isPlainObject (JObj kvs))"
| "converted_whole (JProtoObj p kvs) = (\<not> isPlainObject (JProtoObj p kvs))"
| "converted_whole (JOther s) = True"
| "converted_whole v = False"

text \<open>The loop of \<open>toSerializableJsonValue\<close> over the entries of a plain object.\<close>

definition entry_loop ::
  "(jsval \<Rightarrow> jsval option) \<Rightarrow> (string \<times> jsval) list \<Rightarrow> jsval option \<Rightarrow> jsval option" where
  "entry_loop f kvs acc =
     fold (\<lambda>(key, item) acc.
             case acc of
               None \<Rightarrow> None
             | Some result \<Rightarrow>
                 if item = JUndefined then Some result
                 else (case f item of
                         None \<Rightarrow> None
                       | Some v \<Rightarrow> Some (assign result key v)))
       kvs acc"

text \<open>A number that is not negative; a finite number that is a double.\<close>

definition nonneg_number :: "jsval \<Rightarrow> bool" where
  "nonneg_number v = (case v of JNum d \<Rightarrow> 0 \<le> d | JInfinity \<Rightarrow> True | _ \<Rightarrow> False)"

definition is_double :: "real \<Rightarrow> bool" where
  "is_double r = (round_to_double r = r \<and> \<bar>r\<bar> < 2 ^ 1024)"

text \<open>
  Half a unit in the last place of a double near \<open>r\<close>: the most that rounding \<open>r\<close> to the
  nearest double moves it.
\<close>

definition half_ulp :: "real \<Rightarrow> real" where
  "half_ulp r = 2 powi (binade 2047 r - 53)"

text \<open>
  How near the position \<open>p\<close> plus the stored offset \<open>v\<close> comes to the center \<open>c\<close>: within
  half a unit in the last place of \<open>c - p\<close>, and on \<open>c\<close> itself when \<open>c - p\<close> is a double; an
  offset that is no finite number is stored only when \<open>c - p\<close> is no double.
\<close>

definition reaches :: "real \<Rightarrow> jsval \<Rightarrow> real \<Rightarrow> bool" where
  "reaches p v c =
     (case v of
        JNum d \<Rightarrow> \<bar>p + d - c\<bar> \<le> half_ulp (c - p) \<and> (is_double (c - p) \<longrightarrow> p + d = c)
      | _ \<Rightarrow> \<not> is_double (c - p))"

text \<open>A frame that parsed to a message carrying the id \<open>i\<close>.\<close>

definition carries_id :: "string \<Rightarrow> AssemblyAiTurnMessage option \<Rightarrow> bool" where
  "carries_id i parsed = (case parsed of None \<Rightarrow> False | Some m \<Rightarrow> turn_id m = Some i)"

text \<open>
  An upstream response whose body the route can read: its text when it is not ok, and
  JSON other than \<open>null\<close> when it is.
\<close>

definition readable :: "UpstreamResponse \<Rightarrow> bool" where
  "readable resp =
     (if resp_ok resp
      then (case resp_json resp of None \<Rightarrow> False | Some data \<Rightarrow> \<not> is_nullish data)
      else resp_text resp \<noteq> None)"

section \<open>Reconnect delay\<close>

lemma backoff_cap: "min (1000 * 2 ^ (min n 5)) (15000::nat) = min (1000 * 2 ^ n) 15000"
proof (cases "n \<le> 5")
  case True
  then show ?thesis by (simp add: min_def)
next
  case False
  then have "(2::nat) ^ 5 \<le> 2 ^ n" by (intro power_increasing) auto
  then have "(32::nat) \<le> 2 ^ n" by simp
  with False show ?thesis by (simp add: min_def)
qed

text \<open>
  C1, as the code has it: when the socket of connection attempt \<open>a\<close> closes while
  reconnection is still desired, the pending timer calls \<open>connect (a + 1)\<close> after
  \<open>min (1000 * 2 ^ (a + 1)) 15000\<close> milliseconds: the exponent is the number of the
  attempt to come, not of the one that closed.
\<close>

theorem reconnect_delay:
  "shouldReconnectRef st \<Longrightarrow>
   reconnectTimeoutRef (ws_onclose a st) =
     Some \<lparr>delay = min (1000 * 2 ^ (a + 1)) 15000, attempt = a + 1\<rparr>"
  using backoff_cap [of "a + 1"] by (simp add: ws_onclose_def clearAudioPipeline_def Let_def)

theorem reconnect_delay_witness:
  "shouldReconnectRef (initial_hook\<lparr>shouldReconnectRef := True\<rparr>) \<and>
   reconnectTimeoutRef (ws_onclose 2 (initial_hook\<lparr>shouldReconnectRef := True\<rparr>)) =
     Some \<lparr>delay = 8000, attempt = 3\<rparr>"
  using reconnect_delay [of "initial_hook\<lparr>shouldReconnectRef := True\<rparr>" 2]
  by simp

text \<open>
  The claim as stated, with the delay \<open>min (1000 * 2 ^ a) 15000\<close> after attempt \<open>a\<close>,
  fails at the first connection (\<open>a = 0\<close>): the delay is 2000 ms, not 1000 ms.
\<close>

theorem reconnect_delay_counterexample:
  "shouldReconnectRef (initial_hook\<lparr>shouldReconnectRef := True\<rparr>) \<and>
   map_option delay
     (reconnectTimeoutRef (ws_onclose 0 (initial_hook\<lparr>shouldReconnectRef := True\<rparr>))) =
     Some 2000 \<and>
   map_option delay
     (reconnectTimeoutRef (ws_onclose 0 (initial_hook\<lparr>shouldReconnectRef := True\<rparr>))) \<noteq>
     Some (min (1000 * 2 ^ 0) 15000)"
  by (simp add: ws_onclose_def clearAudioPipeline_def Let_def)

section \<open>What the metadata sanitizer returns\<close>

lemma entry_loop_Nil: "entry_loop f [] acc = acc"
  by (simp add: entry_loop_def)

lemma entry_loop_Cons:
  "entry_loop f ((k, x) # kvs) acc =
     entry_loop f kvs
       (case acc of
          None \<Rightarrow> None
        | Some result \<Rightarrow>
            if x = JUndefined then Some result
            else (case f x of None \<Rightarrow> None | Some v \<Rightarrow> Some (assign result k v)))"
  by (simp add: entry_loop_def)

lemma ser_plain:
  "isPlainObject v \<Longrightarrow>
   toSerializableJsonValue toString v =
     entry_loop (toSerializableJsonValue toString) (own_entries v) (Some (JObj []))"
  by (cases v) (simp_all add: entry_loop_def)

lemma entry_loop_None: "entry_loop f kvs None = None"
  by (induction kvs) (auto simp: entry_loop_Nil entry_loop_Cons)

lemma entry_loop_throws:
  assumes "(k, x) \<in> set kvs" and "x \<noteq> JUndefined" and "f x = None"
  shows "entry_loop f kvs acc = None"
  using assms
proof (induction kvs arbitrary: acc)
  case Nil
  then show ?case by simp
next
  case (Cons kv kvs)
  obtain k' x' where kv: "kv = (k', x')" by (cases kv)
  show ?case
  proof (cases "(k, x) = kv")
    case True
    with Cons.prems kv show ?thesis
      by (cases acc) (simp_all add: entry_loop_Cons entry_loop_None)
  next
    case False
    with Cons.prems have "(k, x) \<in> set kvs" by simp
    then show ?thesis
      unfolding kv entry_loop_Cons using Cons.IH Cons.prems(2,3) by blast
  qed
qed

lemma update_fresh: "k \<notin> fst ` set al \<Longrightarrow> AList.update k v al = al @ [(k, v)]"
  by (induction al) auto

lemma entry_loop_exact:
  assumes "distinct (map fst kvs)" and "''__proto__'' \<notin> fst ` set kvs"
    and "fst ` set kvs \<inter> fst ` set acc = {}"
    and "\<And>k x. (k, x) \<in> set kvs \<Longrightarrow> x \<noteq> JUndefined \<Longrightarrow> f x = Some (g x)"
  shows "entry_loop f kvs (Some (JObj acc)) =
     Some (JObj (acc @ map (\<lambda>(k, x). (k, g x)) (filter (\<lambda>(k, x). x \<noteq> JUndefined) kvs)))"
  using assms
proof (induction kvs arbitrary: acc)
  case Nil
  then show ?case by (simp add: entry_loop_Nil)
next
  case (Cons kv kvs)
  obtain k x where kv: "kv = (k, x)" by (cases kv)
  have rest: "distinct (map fst kvs)" "''__proto__'' \<notin> fst ` set kvs"
    "\<And>k x. (k, x) \<in> set kvs \<Longrightarrow> x \<noteq> JUndefined \<Longrightarrow> f x = Some (g x)"
    using Cons.prems by auto
  show ?case
  proof (cases "x = JUndefined")
    case True
    have "fst ` set kvs \<inter> fst ` set acc = {}" using Cons.prems(3) by auto
    from Cons.IH [OF rest(1,2) this rest(3)] True kv show ?thesis
      by (simp add: entry_loop_Cons)
  next
    case False
    have fx: "f x = Some (g x)" using Cons.prems(4) [of k x] kv False by simp
    have k: "k \<noteq> ''__proto__''" "k \<notin> fst ` set acc" "k \<notin> fst ` set kvs"
      using Cons.prems(1,2,3) kv by auto
    then have a: "assign (JObj acc) k (g x) = JObj (acc @ [(k, g x)])"
      by (simp add: assign_def update_fresh)
    have "fst ` set kvs \<inter> fst ` set (acc @ [(k, g x)]) = {}"
      using Cons.prems(3) k(3) by auto
    from Cons.IH [OF rest(1,2) this rest(3)] False kv fx a show ?thesis
      by (simp add: entry_loop_Cons)
  qed
qed

lemma entry_loop_returns:
  assumes "\<And>k x. (k, x) \<in> set kvs \<Longrightarrow> x \<noteq> JUndefined \<Longrightarrow> f x \<noteq> None"
  shows "entry_loop f kvs (Some a) \<noteq> None"
  using assms
proof (induction kvs arbitrary: a)
  case Nil
  then show ?case by (simp add: entry_loop_Nil)
next
  case (Cons kv kvs)
  obtain k x where kv: "kv = (k, x)" by (cases kv)
  have rest: "\<And>k x. (k, x) \<in> set kvs \<Longrightarrow> x \<noteq> JUndefined \<Longrightarrow> f x \<noteq> None"
    using Cons.prems by auto
  show ?case
  proof (cases "x = JUndefined")
    case True
    with Cons.IH [OF rest] kv show ?thesis by (simp add: entry_loop_Cons)
  next
    case False
    with Cons.prems kv obtain v where "f x = Some v" by fastforce
    with Cons.IH [OF rest] kv False show ?thesis by (simp add: entry_loop_Cons)
  qed
qed

lemma those_None_iff: "those (map f xs) = None \<longleftrightarrow> (\<exists>x\<in>set xs. f x = None)"
  by (induction xs) (auto split: option.splits)

lemma those_map_the:
  "\<forall>x\<in>set xs. f x \<noteq> None \<Longrightarrow> those (map f xs) = Some (map (\<lambda>x. the (f x)) xs)"
  by (induction xs) auto

lemma plain_cases:
  assumes "isPlainObject v"
  obtains kvs where "v = JObj kvs" | p kvs where "v = JProtoObj p kvs"
  using assms by (cases v) auto

lemma plain_throws_iff:
  assumes "isPlainObject v"
    and ih: "\<And>k x. (k, x) \<in> set (own_entries v) \<Longrightarrow> x \<noteq> JUndefined \<Longrightarrow>
        (toSerializableJsonValue toString x = None) = (\<not> convertible toString x)"
  shows "(toSerializableJsonValue toString v = None) =
     (\<not> list_all (\<lambda>(k, x). convertible toString x) (own_entries v))"
proof (cases "list_all (\<lambda>(k, x). convertible toString x) (own_entries v)")
  case True
  then have "\<And>k x. (k, x) \<in> set (own_entries v) \<Longrightarrow> x \<noteq> JUndefined \<Longrightarrow>
      toSerializableJsonValue toString x \<noteq> None"
    using ih by (auto simp: list_all_iff)
  then have "entry_loop (toSerializableJsonValue toString) (own_entries v) (Some (JObj [])) \<noteq> None"
    by (rule entry_loop_returns)
  with True show ?thesis by (simp add: ser_plain [OF assms(1)])
next
  case False
  then obtain k x where kx: "(k, x) \<in> set (own_entries v)" "\<not> convertible toString x"
    by (auto simp: list_all_iff)
  then have u: "x \<noteq> JUndefined" by auto
  with kx ih have "toSerializableJsonValue toString x = None" by blast
  with kx(1) u
  have "entry_loop (toSerializableJsonValue toString) (own_entries v) (Some (JObj [])) = None"
    by (rule entry_loop_throws)
  with False show ?thesis by (simp add: ser_plain [OF assms(1)])
qed

lemma ser_throws_iff:
  "toSerializableJsonValue toString v = None \<longleftrightarrow> \<not> convertible toString v"
proof (induction toString v rule: toSerializableJsonValue.induct)
  case (9 toString xs)
  then show ?case by (auto simp: those_None_iff list_all_iff)
next
  case (11 toString kvs)
  show ?case
  proof (cases "isPlainObject (JObj kvs)")
    case False
    then show ?thesis by auto
  next
    case True
    have "(toSerializableJsonValue toString (JObj kvs) = None) =
        (\<not> list_all (\<lambda>(k, x). convertible toString x) (own_entries (JObj kvs)))"
      using True 11 by (intro plain_throws_iff) auto
    with True show ?thesis by simp
  qed
next
  case (12 toString p kvs)
  show ?case
  proof (cases "isPlainObject (JProtoObj p kvs)")
    case False
    then show ?thesis by auto
  next
    case True
    have "(toSerializableJsonValue toString (JProtoObj p kvs) = None) =
        (\<not> list_all (\<lambda>(k, x). convertible toString x) (own_entries (JProtoObj p kvs)))"
      using True 12 by (intro plain_throws_iff) auto
    with True show ?thesis by simp
  qed
qed simp_all

lemma plain_result:
  assumes "isPlainObject v"
    and "distinct (map fst (own_entries v))"
    and "''__proto__'' \<notin> fst ` set (own_entries v)"
    and ih: "\<And>k x. (k, x) \<in> set (own_entries v) \<Longrightarrow> x \<noteq> JUndefined \<Longrightarrow>
        \<exists>r. toSerializableJsonValue toString x = Some r \<and> is_json r"
  shows "toSerializableJsonValue toString v =
      Some (JObj (map (\<lambda>(k, x). (k, the (toSerializableJsonValue toString x)))
                    (filter (\<lambda>(k, x). x \<noteq> JUndefined) (own_entries v))))"
    and "is_json (JObj (map (\<lambda>(k, x). (k, the (toSerializableJsonValue toString x)))
                    (filter (\<lambda>(k, x). x \<noteq> JUndefined) (own_entries v))))"
proof -
  have "\<And>k x. (k, x) \<in> set (own_entries v) \<Longrightarrow> x \<noteq> JUndefined \<Longrightarrow>
      toSerializableJsonValue toString x = Some (the (toSerializableJsonValue toString x))"
    using ih by fastforce
  with assms(2,3)
  have "entry_loop (toSerializableJsonValue toString) (own_entries v) (Some (JObj [])) =
      Some (JObj ([] @ map (\<lambda>(k, x). (k, the (toSerializableJsonValue toString x)))
                    (filter (\<lambda>(k, x). x \<noteq> JUndefined) (own_entries v))))"
    by (intro entry_loop_exact) auto
  then show "toSerializableJsonValue toString v =
      Some (JObj (map (\<lambda>(k, x). (k, the (toSerializableJsonValue toString x)))
                    (filter (\<lambda>(k, x). x \<noteq> JUndefined) (own_entries v))))"
    by (simp add: ser_plain [OF assms(1)])
  show "is_json (JObj (map (\<lambda>(k, x). (k, the (toSerializableJsonValue toString x)))
                    (filter (\<lambda>(k, x). x \<noteq> JUndefined) (own_entries v))))"
    using ih by (fastforce simp: list_all_iff)
qed

lemma ser_json:
  "convertible toString v \<Longrightarrow> well_keyed v \<Longrightarrow>
   \<exists>r. toSerializableJsonValue toString v = Some r \<and> is_json r"
proof (induction toString v rule: toSerializableJsonValue.induct)
  case (9 toString xs)
  then have all: "\<forall>x\<in>set xs. \<exists>r. toSerializableJsonValue toString x = Some r \<and> is_json r"
    by (auto simp: list_all_iff)
  then have "those (map (toSerializableJsonValue toString) xs) =
      Some (map (\<lambda>x. the (toSerializableJsonValue toString x)) xs)"
    by (intro those_map_the) auto
  moreover have "list_all is_json (map (\<lambda>x. the (toSerializableJsonValue toString x)) xs)"
    using all by (fastforce simp: list_all_iff)
  ultimately show ?case by simp
next
  case (11 toString kvs)
  show ?case
  proof (cases "isPlainObject (JObj kvs)")
    case False
    with "11.prems" show ?thesis by auto
  next
    case True
    have "\<And>k x. (k, x) \<in> set (own_entries (JObj kvs)) \<Longrightarrow> x \<noteq> JUndefined \<Longrightarrow>
        \<exists>r. toSerializableJsonValue toString x = Some r \<and> is_json r"
      using 11 True by (fastforce simp: list_all_iff)
    moreover have "distinct (map fst (own_entries (JObj kvs)))"
      "''__proto__'' \<notin> fst ` set (own_entries (JObj kvs))"
      using "11.prems" True by auto
    ultimately show ?thesis
      using plain_result [OF True, of toString] by blast
  qed
next
  case (12 toString p kvs)
  show ?case
  proof (cases "isPlainObject (JProtoObj p kvs)")
    case False
    with "12.prems" show ?thesis by auto
  next
    case True
    have "\<And>k x. (k, x) \<in> set (own_entries (JProtoObj p kvs)) \<Longrightarrow> x \<noteq> JUndefined \<Longrightarrow>
        \<exists>r. toSerializableJsonValue toString x = Some r \<and> is_json r"
      using 12 True by (fastforce simp: list_all_iff)
    moreover have "distinct (map fst (own_entries (JProtoObj p kvs)))"
      "''__proto__'' \<notin> fst ` set (own_entries (JProtoObj p kvs))"
      using "12.prems" True by auto
    ultimately show ?thesis
      using plain_result [OF True, of toString] by blast
  qed
next
  case (13 toString s)
  then show ?case by auto
qed simp_all

lemma tidy_plain: "tidy (JObj kvs) \<Longrightarrow> isPlainObject (JObj kvs)"
  by (simp add: map_of_eq_None_iff)

lemma ser_tidy: "tidy v \<Longrightarrow> toSerializableJsonValue toString v = Some v"
proof (induction toString v rule: toSerializableJsonValue.induct)
  case (9 toString xs)
  then have "\<forall>x\<in>set xs. toSerializableJsonValue toString x = Some x"
    by (auto simp: list_all_iff)
  then have "those (map (toSerializableJsonValue toString) xs) = Some xs"
    by (induction xs) auto
  then show ?case by simp
next
  case (11 toString kvs)
  have plain: "isPlainObject (JObj kvs)" using "11.prems" by (rule tidy_plain)
  have vals: "\<And>k x. (k, x) \<in> set kvs \<Longrightarrow> x \<noteq> JUndefined \<and>
      toSerializableJsonValue toString x = Some x"
    using 11 plain by (fastforce simp: list_all_iff)
  have "entry_loop (toSerializableJsonValue toString) kvs (Some (JObj [])) =
      Some (JObj ([] @ map (\<lambda>(k, x). (k, x)) (filter (\<lambda>(k, x). x \<noteq> JUndefined) kvs)))"
    using "11.prems" vals by (intro entry_loop_exact) auto
  moreover have "filter (\<lambda>(k, x). x \<noteq> JUndefined) kvs = kvs"
    using vals by (auto simp: filter_id_conv)
  ultimately show ?case using ser_plain [OF plain, of toString] by simp
qed simp_all

lemma sanitize_plain:
  assumes "isPlainObject v" and "convertible toString v" and "well_keyed v"
  shows "sanitizeShapeMeta toString v =
      Some (JObj (map (\<lambda>(k, x). (k, the (toSerializableJsonValue toString x)))
                    (filter (\<lambda>(k, x). x \<noteq> JUndefined) (own_entries v))))"
    and "is_json (JObj (map (\<lambda>(k, x). (k, the (toSerializableJsonValue toString x)))
                    (filter (\<lambda>(k, x). x \<noteq> JUndefined) (own_entries v))))"
    and "list_all2 (\<lambda>(k, r) (k', x). k = k' \<and> toSerializableJsonValue toString x = Some r)
           (map (\<lambda>(k, x). (k, the (toSerializableJsonValue toString x)))
              (filter (\<lambda>(k, x). x \<noteq> JUndefined) (own_entries v)))
           (filter (\<lambda>(k, x). x \<noteq> JUndefined) (own_entries v))"
proof -
  have keys: "distinct (map fst (own_entries v))" "''__proto__'' \<notin> fst ` set (own_entries v)"
    using assms(1,3) by (cases v; simp)+
  have vals: "\<And>k x. (k, x) \<in> set (own_entries v) \<Longrightarrow>
      convertible toString x \<and> well_keyed x"
    using assms by (cases v) (auto simp: list_all_iff)
  then have ih: "\<And>k x. (k, x) \<in> set (own_entries v) \<Longrightarrow> x \<noteq> JUndefined \<Longrightarrow>
      \<exists>r. toSerializableJsonValue toString x = Some r \<and> is_json r"
    using ser_json by blast
  from plain_result [OF assms(1) keys ih]
  show "sanitizeShapeMeta toString v =
      Some (JObj (map (\<lambda>(k, x). (k, the (toSerializableJsonValue toString x)))
                    (filter (\<lambda>(k, x). x \<noteq> JUndefined) (own_entries v))))"
    and "is_json (JObj (map (\<lambda>(k, x). (k, the (toSerializableJsonValue toString x)))
                    (filter (\<lambda>(k, x). x \<noteq> JUndefined) (own_entries v))))"
    using assms(1) by (simp_all add: sanitizeShapeMeta_def)
  show "list_all2 (\<lambda>(k, r) (k', x). k = k' \<and> toSerializableJsonValue toString x = Some r)
           (map (\<lambda>(k, x). (k, the (toSerializableJsonValue toString x)))
              (filter (\<lambda>(k, x). x \<noteq> JUndefined) (own_entries v)))
           (filter (\<lambda>(k, x). x \<noteq> JUndefined) (own_entries v))"
    using ih by (fastforce simp: list_all2_map1 list_all2_same)
qed

text \<open>
  C6, as the code has it: an input that is not a plain object gives \<open>{}\<close>. On a plain
  object the sanitizer throws exactly when \<open>String\<close> throws on a value it has to convert
  or the input refers back to itself through arrays and plain objects. Otherwise, when
  no plain object in the input has an own key \<open>__proto__\<close>, the result is a plain object
  in which every reachable value is \<open>null\<close>, a boolean, a number, a string, an array or a
  plain object, and no key holds \<open>undefined\<close>: it has, in their order, exactly the keys of
  the input whose value is not \<open>undefined\<close>, each with the sanitized value of the input's.
  A value that is plain JSON already is returned as it is, \<open>undefined\<close> becomes \<open>null\<close>,
  an object that is no array and not plain becomes the string \<open>String\<close> makes of it, and
  an array is sanitized item by item.
\<close>

theorem sanitizeShapeMeta_result:
  "(\<not> isPlainObject v \<longrightarrow> sanitizeShapeMeta toString v = Some (JObj [])) \<and>
   (isPlainObject v \<longrightarrow>
      (sanitizeShapeMeta toString v = None \<longleftrightarrow> \<not> convertible toString v)) \<and>
   (isPlainObject v \<and> convertible toString v \<and> well_keyed v \<longrightarrow>
      (\<exists>kvs. sanitizeShapeMeta toString v = Some (JObj kvs) \<and>
         is_json (JObj kvs) \<and> JUndefined \<notin> snd ` set kvs \<and>
         list_all2 (\<lambda>(k, r) (k', x). k = k' \<and> toSerializableJsonValue toString x = Some r)
           kvs (filter (\<lambda>(k, x). x \<noteq> JUndefined) (own_entries v)))) \<and>
   (tidy v \<longrightarrow> toSerializableJsonValue toString v = Some v \<and>
      (isPlainObject v \<longrightarrow> sanitizeShapeMeta toString v = Some v)) \<and>
   toSerializableJsonValue toString JUndefined = Some JNull \<and>
   (converted_whole v \<longrightarrow>
      toSerializableJsonValue toString v = map_option JStr (toString v)) \<and>
   (\<forall>xs. v = JArr xs \<and> convertible toString v \<longrightarrow>
      (\<exists>rs. toSerializableJsonValue toString v = Some (JArr rs) \<and>
         list_all2 (\<lambda>r x. toSerializableJsonValue toString x = Some r) rs xs))"
proof (intro conjI impI allI)
  assume "\<not> isPlainObject v"
  then show "sanitizeShapeMeta toString v = Some (JObj [])"
    by (simp add: sanitizeShapeMeta_def)
next
  assume "isPlainObject v"
  then show "sanitizeShapeMeta toString v = None \<longleftrightarrow> \<not> convertible toString v"
    by (simp add: sanitizeShapeMeta_def ser_throws_iff)
next
  assume a: "isPlainObject v \<and> convertible toString v \<and> well_keyed v"
  let ?kvs = "map (\<lambda>(k, x). (k, the (toSerializableJsonValue toString x)))
      (filter (\<lambda>(k, x). x \<noteq> JUndefined) (own_entries v))"
  from a have p: "isPlainObject v" "convertible toString v" "well_keyed v" by simp_all
  note r = sanitize_plain [OF p]
  from r(2) have "JUndefined \<notin> snd ` set ?kvs"
    by (auto simp: list_all_iff simp del: set_map)
  with r show "\<exists>kvs. sanitizeShapeMeta toString v = Some (JObj kvs) \<and>
         is_json (JObj kvs) \<and> JUndefined \<notin> snd ` set kvs \<and>
         list_all2 (\<lambda>(k, r) (k', x). k = k' \<and> toSerializableJsonValue toString x = Some r)
           kvs (filter (\<lambda>(k, x). x \<noteq> JUndefined) (own_entries v))"
    by blast
next
  assume "tidy v"
  then show "toSerializableJsonValue toString v = Some v" by (rule ser_tidy)
next
  assume "tidy v" "isPlainObject v"
  then show "sanitizeShapeMeta toString v = Some v"
    by (simp add: sanitizeShapeMeta_def ser_tidy)
next
  show "toSerializableJsonValue toString JUndefined = Some JNull" by simp
next
  assume "converted_whole v"
  then show "toSerializableJsonValue toString v = map_option JStr (toString v)"
    by (cases v) (simp_all del: isPlainObject.simps)
next
  fix xs
  assume a: "v = JArr xs \<and> convertible toString v"
  then have all: "\<forall>x\<in>set xs. toSerializableJsonValue toString x \<noteq> None"
    by (auto simp: list_all_iff ser_throws_iff)
  then have "those (map (toSerializableJsonValue toString) xs) =
      Some (map (\<lambda>x. the (toSerializableJsonValue toString x)) xs)"
    by (rule those_map_the)
  moreover have "list_all2 (\<lambda>r x. toSerializableJsonValue toString x = Some r)
      (map (\<lambda>x. the (toSerializableJsonValue toString x)) xs) xs"
    using all by (auto simp: list_all2_map1 list_all2_same)
  ultimately show "\<exists>rs. toSerializableJsonValue toString v = Some (JArr rs) \<and>
      list_all2 (\<lambda>r x. toSerializableJsonValue toString x = Some r) rs xs"
    using a by auto
qed

theorem sanitizeShapeMeta_result_witness:
  "sanitizeShapeMeta naming (JArr [JNum 1]) = Some (JObj []) \<and>
   sanitizeShapeMeta naming (JObj [(''self'', JArr [JCycle])]) = None \<and>
   sanitizeShapeMeta naming
       (JObj [(''note'', JUndefined), (''kind'', JStr ''concept-node''),
              (''seen'', JArr [JUndefined, JOther ''f'', JNaN]),
              (''at'', JObj [(''d'', JUndefined)])]) =
     Some (JObj [(''kind'', JStr ''concept-node''),
                 (''seen'', JArr [JNull, JStr ''f'', JNaN]), (''at'', JObj [])]) \<and>
   sanitizeShapeMeta naming
       (JObj [(''kind'', JStr ''concept-node''), (''size'', JArr [JNum 2, JNull])]) =
     Some (JObj [(''kind'', JStr ''concept-node''), (''size'', JArr [JNum 2, JNull])]) \<and>
   toSerializableJsonValue naming (JOther ''f'') = Some (JStr ''f'') \<and>
   toSerializableJsonValue naming (JArr [JUndefined, JOther ''f'']) =
     Some (JArr [JNull, JStr ''f''])"
proof -
  let ?cyc = "JObj [(''self'', JArr [JCycle])]"
  let ?mixed = "JObj [(''note'', JUndefined), (''kind'', JStr ''concept-node''),
      (''seen'', JArr [JUndefined, JOther ''f'', JNaN]), (''at'', JObj [(''d'', JUndefined)])]"
  let ?clean = "JObj [(''kind'', JStr ''concept-node''), (''size'', JArr [JNum 2, JNull])]"
  have "\<not> isPlainObject (JArr [JNum 1])" by simp
  with sanitizeShapeMeta_result [of "JArr [JNum 1]" naming]
  have 1: "sanitizeShapeMeta naming (JArr [JNum 1]) = Some (JObj [])" by blast
  have "isPlainObject ?cyc" "\<not> convertible naming ?cyc" by simp_all
  with sanitizeShapeMeta_result [of ?cyc naming]
  have 2: "sanitizeShapeMeta naming ?cyc = None" by blast
  have "isPlainObject ?mixed \<and> convertible naming ?mixed \<and> well_keyed ?mixed"
    by (simp add: naming_def)
  with sanitizeShapeMeta_result [of ?mixed naming]
  obtain kvs where k: "sanitizeShapeMeta naming ?mixed = Some (JObj kvs)"
    "list_all2 (\<lambda>(k, r) (k', x). k = k' \<and> toSerializableJsonValue naming x = Some r)
       kvs (filter (\<lambda>(k, x). x \<noteq> JUndefined) (own_entries ?mixed))"
    by blast
  from k(2) have "kvs = [(''kind'', JStr ''concept-node''),
      (''seen'', JArr [JNull, JStr ''f'', JNaN]), (''at'', JObj [])]"
    by (auto simp: list_all2_Cons2 naming_def)
  with k(1) have 3: "sanitizeShapeMeta naming ?mixed =
      Some (JObj [(''kind'', JStr ''concept-node''),
                  (''seen'', JArr [JNull, JStr ''f'', JNaN]), (''at'', JObj [])])"
    by simp
  have "tidy ?clean" "isPlainObject ?clean" by simp_all
  with sanitizeShapeMeta_result [of ?clean naming]
  have 4: "sanitizeShapeMeta naming ?clean = Some ?clean" by blast
  have "converted_whole (JOther ''f'')" by simp
  with sanitizeShapeMeta_result [of "JOther ''f''" naming]
  have 5: "toSerializableJsonValue naming (JOther ''f'') = Some (JStr ''f'')"
    by (simp add: naming_def)
  let ?seen = "JArr [JUndefined, JOther ''f'']"
  have "convertible naming ?seen" by (simp add: naming_def)
  with sanitizeShapeMeta_result [of ?seen naming]
  obtain rs where rs: "toSerializableJsonValue naming ?seen = Some (JArr rs)"
    "list_all2 (\<lambda>r x. toSerializableJsonValue naming x = Some r) rs [JUndefined, JOther ''f'']"
    by blast
  from rs(2) have "rs = [JNull, JStr ''f'']"
    by (auto simp: list_all2_Cons2 naming_def)
  with rs(1) have 6: "toSerializableJsonValue naming ?seen = Some (JArr [JNull, JStr ''f''])"
    by simp
  from 1 2 3 4 5 6 show ?thesis by simp
qed

text \<open>
  The claim as stated has a plain JSON object returned for every input. A plain object
  that refers back to itself makes the sanitizer throw, and the own key \<open>__proto__\<close>
  with an array makes that array the prototype of the result, which is then no plain
  object (its constructor is \<open>Array\<close>).
\<close>

theorem sanitizeShapeMeta_counterexample:
  "isPlainObject (JObj [(''self'', JArr [JCycle])]) \<and>
   sanitizeShapeMeta naming (JObj [(''self'', JArr [JCycle])]) = None \<and>
   isPlainObject (JObj [(''__proto__'', JArr [JNum 1])]) \<and>
   sanitizeShapeMeta naming (JObj [(''__proto__'', JArr [JNum 1])]) =
     Some (JProtoObj (JArr [JNum 1]) []) \<and>
   \<not> isPlainObject (JProtoObj (JArr [JNum 1]) []) \<and>
   \<not> is_json (JProtoObj (JArr [JNum 1]) [])"
  by (simp add: sanitizeShapeMeta_def assign_def)

section \<open>Concept nodes: the sanitized size\<close>

text \<open>
  C2, as the code has it: after \<open>sanitizeAction\<close> the width and the height are numbers,
  the width at least 180 and the height at least 100; a proposed width below 180
  becomes 180 and a proposed height below 100 becomes 100. The minimum of the height is
  100; 140 is its default, taken when no number was proposed.
\<close>

theorem sanitize_node_min_size:
  "\<exists>rw rh.
     node_w (CreateConceptNode_sanitizeAction action helpers) = JNum rw \<and> 180 \<le> rw \<and>
     node_h (CreateConceptNode_sanitizeAction action helpers) = JNum rh \<and> 100 \<le> rh \<and>
     (\<forall>r. ensureValueIsNumber helpers (node_w action) = Some r \<and> r < 180 \<longrightarrow> rw = 180) \<and>
     (\<forall>r. ensureValueIsNumber helpers (node_h action) = Some r \<and> r < 100 \<longrightarrow> rh = 100) \<and>
     (ensureValueIsNumber helpers (node_h action) = None \<longrightarrow> rh = 140)"
  by (auto simp: CreateConceptNode_sanitizeAction_def Let_def)

theorem sanitize_node_min_size_witness:
  "ensureValueIsNumber plain_helpers (node_w (small_node (JNum 50) (JNum 60))) = Some 50 \<and>
   ensureValueIsNumber plain_helpers (node_h (small_node (JNum 50) (JNum 60))) = Some 60 \<and>
   node_w (CreateConceptNode_sanitizeAction (small_node (JNum 50) (JNum 60)) plain_helpers) =
     JNum 180 \<and>
   node_h (CreateConceptNode_sanitizeAction (small_node (JNum 50) (JNum 60)) plain_helpers) =
     JNum 100 \<and>
   ensureValueIsNumber plain_helpers (node_h (small_node (JNum 50) JUndefined)) = None \<and>
   node_h (CreateConceptNode_sanitizeAction (small_node (JNum 50) JUndefined) plain_helpers) =
     JNum 140"
  using sanitize_node_min_size [of "small_node (JNum 50) (JNum 60)" plain_helpers]
    sanitize_node_min_size [of "small_node (JNum 50) JUndefined" plain_helpers]
  by (simp add: plain_helpers_def small_node_def)

text \<open>
  The claim as stated fails: a proposed height of 120 is below 140 and is kept as it is,
  so the sanitized height is not at least 140.
\<close>

theorem sanitize_node_height_counterexample:
  "node_h (CreateConceptNode_sanitizeAction (small_node (JNum 50) (JNum 120)) plain_helpers) =
     JNum 120 \<and>
   \<not> (\<exists>rh. node_h (CreateConceptNode_sanitizeAction (small_node (JNum 50) (JNum 120))
               plain_helpers) = JNum rh \<and> 140 \<le> rh)"
  by (simp add: CreateConceptNode_sanitizeAction_def Let_def plain_helpers_def small_node_def)

section \<open>Rounded differences\<close>

lemma round_half_even_int: "round_half_even (of_int m) = m"
  by (simp add: round_half_even_def)

lemma round_half_even_nonneg: "0 \<le> q \<Longrightarrow> 0 \<le> round_half_even q"
  by (auto simp: round_half_even_def Let_def)

lemma round_to_double_0: "round_to_double 0 = 0"
  by (simp add: round_to_double_def round_half_even_def)

lemma round_to_double_nonneg: "0 \<le> r \<Longrightarrow> 0 \<le> round_to_double r"
  by (simp add: round_to_double_def Let_def round_half_even_nonneg)

lemma js_number_0: "js_number 0 = JNum 0"
  by (simp add: js_number_def round_to_double_0)

lemma js_number_nonneg: "0 \<le> r \<Longrightarrow> nonneg_number (js_number r)"
  using round_to_double_nonneg [of r]
  by (auto simp: js_number_def nonneg_number_def Let_def)

lemma js_number_double: "is_double r \<Longrightarrow> js_number r = JNum r"
  by (auto simp: js_number_def is_double_def Let_def)

lemma binade_eq:
  assumes "- 1022 \<le> e" and "e + 1023 \<le> int n"
    and "2 powi e \<le> \<bar>r\<bar>" and "\<bar>r\<bar> < 2 powi (e + 1)"
  shows "binade n r = e"
  using assms
proof (induction n)
  case 0
  then show ?case by simp
next
  case (Suc n)
  show ?case
  proof (cases "int n - 1022 = e")
    case True
    with Suc.prems show ?thesis by simp
  next
    case False
    with Suc.prems have lt: "e + 1 \<le> int n - 1022" by simp
    then have "(2::real) powi (e + 1) \<le> 2 powi (int n - 1022)"
      by (intro power_int_increasing) auto
    with Suc.prems have "\<not> 2 powi (int n - 1022) \<le> \<bar>r\<bar>" by simp
    moreover have "binade n r = e" using Suc lt by simp
    ultimately show ?thesis by simp
  qed
qed

lemma binade_bound: "binade n r = - 1022 \<or> 2 powi (binade n r) \<le> \<bar>r\<bar>"
  by (induction n) auto

lemma int_is_double:
  assumes "\<bar>m\<bar> \<le> 2 ^ 53"
  shows "is_double (of_int m)"
proof -
  let ?r = "of_int m :: real"
  let ?e = "binade 2047 ?r"
  have r: "\<bar>?r\<bar> \<le> 2 ^ 53"
  proof -
    have "\<bar>?r\<bar> = of_int \<bar>m\<bar>" by simp
    also have "\<dots> \<le> of_int (2 ^ 53)" using assms by (intro of_int_le_iff [THEN iffD2])
    finally show ?thesis by simp
  qed
  have e: "?e \<le> 53"
  proof (rule ccontr)
    assume "\<not> ?e \<le> 53"
    then have big: "54 \<le> ?e" by simp
    then have "?e \<noteq> - 1022" by simp
    with binade_bound [of 2047 ?r] have "2 powi ?e \<le> \<bar>?r\<bar>" by blast
    moreover have "(2::real) powi 54 \<le> 2 powi ?e"
      using big by (intro power_int_increasing) auto
    ultimately have "(2::real) powi 54 \<le> 2 ^ 53" using r by linarith
    then show False by simp
  qed
  have exact: "round_to_double ?r = ?r"
  proof (cases "?e = 53")
    case True
    then have "?e \<noteq> - 1022" by simp
    with binade_bound [of 2047 ?r] True have "(2::real) powi 53 \<le> \<bar>?r\<bar>" by auto
    with r have "\<bar>?r\<bar> = 2 ^ 53" by simp
    then have "real_of_int \<bar>m\<bar> = real_of_int (2 ^ 53)" by simp
    then have "\<bar>m\<bar> = 2 ^ 53" by (simp only: of_int_eq_iff)
    then consider "m = 2 ^ 53" | "m = - (2 ^ 53)" by linarith
    then show ?thesis
    proof cases
      case 1
      have "round_half_even (2 ^ 53 / 2) = 2 ^ 52"
        using round_half_even_int [of "2 ^ 52"] by simp
      with 1 True show ?thesis by (simp add: round_to_double_def)
    next
      case 2
      have "round_half_even (- (2 ^ 53) / 2) = - (2 ^ 52)"
        using round_half_even_int [of "- (2 ^ 52)"] by simp
      with 2 True show ?thesis by (simp add: round_to_double_def)
    qed
  next
    case False
    with e have le: "?e \<le> 52" by simp
    define k where "k = nat (52 - ?e)"
    have ulp: "(2::real) powi (?e - 52) = 1 / 2 ^ k"
    proof -
      have "?e - 52 = - int k" using le by (simp add: k_def)
      then show ?thesis by (simp add: power_int_minus_divide)
    qed
    have "?r / (1 / 2 ^ k) = of_int (m * 2 ^ k)" by simp
    then have "round_half_even (?r / (1 / 2 ^ k)) = m * 2 ^ k"
      by (simp only: round_half_even_int)
    then show ?thesis
      by (simp add: round_to_double_def ulp)
  qed
  have "\<bar>?r\<bar> < 2 ^ 1024" using r by (rule le_less_trans) simp
  with exact show ?thesis by (simp add: is_double_def)
qed

lemma int_difference_is_double:
  assumes "\<bar>i\<bar> \<le> 2 ^ 52" and "\<bar>j\<bar> \<le> 2 ^ 52"
  shows "is_double (of_int i - of_int j)"
proof -
  have "\<bar>i - j\<bar> \<le> 2 ^ 53" using assms by simp
  then have "is_double (of_int (i - j))" by (rule int_is_double)
  then show ?thesis by simp
qed

lemma round_half_even_close: "\<bar>of_int (round_half_even q) - q\<bar> \<le> 1 / 2"
  unfolding round_half_even_def Let_def by (auto simp: abs_le_iff)

lemma round_to_double_close: "\<bar>round_to_double r - r\<bar> \<le> half_ulp r"
proof -
  define u :: real where "u = 2 powi (binade 2047 r - 52)"
  have u: "0 < u" by (simp add: u_def)
  have h: "half_ulp r = u / 2"
    by (simp add: half_ulp_def u_def power_int_diff)
  have "round_to_double r - r = (of_int (round_half_even (r / u)) - r / u) * u"
    using u by (simp add: round_to_double_def u_def [symmetric] algebra_simps)
  then have "\<bar>round_to_double r - r\<bar> = \<bar>of_int (round_half_even (r / u)) - r / u\<bar> * u"
    using u by (simp add: abs_mult)
  also have "\<dots> \<le> 1 / 2 * u"
    using u round_half_even_close [of "r / u"] by (intro mult_right_mono) auto
  finally show ?thesis by (simp add: h)
qed

lemma js_number_reaches:
  assumes "0 \<le> c - p"
  shows "reaches p (js_number (c - p)) c"
proof (cases "js_number (c - p)")
  case (JNum d)
  then have d: "d = round_to_double (c - p)"
    by (auto simp: js_number_def Let_def split: if_splits)
  have "p + d - c = round_to_double (c - p) - (c - p)" by (simp add: d)
  with round_to_double_close [of "c - p"] have "\<bar>p + d - c\<bar> \<le> half_ulp (c - p)" by simp
  moreover have "is_double (c - p) \<longrightarrow> p + d = c" by (auto simp: d is_double_def)
  ultimately show ?thesis by (simp add: reaches_def JNum)
qed (auto simp: reaches_def dest: js_number_double)

lemma round_to_double_in_binade:
  assumes "- 1022 \<le> e" and "e \<le> 1024"
    and "2 powi e \<le> \<bar>r\<bar>" and "\<bar>r\<bar> < 2 powi (e + 1)"
  shows "round_to_double r = of_int (round_half_even (r / 2 powi (e - 52))) * 2 powi (e - 52)"
proof -
  have "binade 2047 r = e" using assms by (intro binade_eq) auto
  then show ?thesis by (simp add: round_to_double_def Let_def)
qed

section \<open>Relationship edges\<close>

lemma applyAiStyle_returns:
  assumes "sanitizeShapeMeta toString (meta sh) = Some m"
  shows "\<exists>sh'. applyAiStyle toString now sh = Some sh' \<and>
     shape_x sh' = shape_x sh \<and> shape_y sh' = shape_y sh \<and>
     map_of (props sh') ''start'' = map_of (props sh) ''start'' \<and>
     map_of (props sh') ''end'' = map_of (props sh) ''end''"
  using assms by (simp add: applyAiStyle_def Let_def update_conv')

lemma string_or_undefined_cases:
  "string_or_undefined v = JUndefined \<or> (\<exists>s. string_or_undefined v = JStr s)"
  by (cases v) auto

lemma id_value_cases: "id_value i = JNull \<or> (\<exists>s. id_value i = JStr s)"
  by (cases i) auto

lemma edge_meta_returns:
  assumes "sv = JUndefined \<or> (\<exists>s. sv = JStr s)"
    and "fv = JNull \<or> (\<exists>s. fv = JStr s)" and "tv = JNull \<or> (\<exists>s. tv = JStr s)"
  shows "\<exists>m. sanitizeShapeMeta toString
         (JObj [(''note'', sv), (''kind'', JStr ''relationship-edge''),
                (''fromShapeId'', fv), (''toShapeId'', tv)]) = Some m \<and>
       sanitizeShapeMeta toString m = Some m"
  using assms
  by (elim disjE exE) (simp_all add: sanitizeShapeMeta_def assign_def)

lemma edge_shape_returns:
  "\<exists>shape. edge_shape tk action fromBounds toBounds = Some shape \<and>
     shape_x shape = min (center_x fromBounds) (center_x toBounds) \<and>
     shape_y shape = min (center_y fromBounds) (center_y toBounds) \<and>
     map_of (props shape) ''start'' =
       Some (JObj [(''x'', js_number (center_x fromBounds -
                       min (center_x fromBounds) (center_x toBounds))),
                   (''y'', js_number (center_y fromBounds -
                       min (center_y fromBounds) (center_y toBounds)))]) \<and>
     map_of (props shape) ''end'' =
       Some (JObj [(''x'', js_number (center_x toBounds -
                       min (center_x fromBounds) (center_x toBounds))),
                   (''y'', js_number (center_y toBounds -
                       min (center_y fromBounds) (center_y toBounds)))])"
proof -
  from edge_meta_returns [OF string_or_undefined_cases id_value_cases id_value_cases]
  obtain m where m: "sanitizeShapeMeta (builtinString tk)
         (JObj [(''note'', string_or_undefined (intent action)),
                (''kind'', JStr ''relationship-edge''),
                (''fromShapeId'', id_value (fromShapeId action)),
                (''toShapeId'', id_value (toShapeId action))]) = Some m"
    "sanitizeShapeMeta (builtinString tk) m = Some m"
    by blast
  have "\<exists>sh. edge_shape tk action fromBounds toBounds =
        applyAiStyle (builtinString tk) (dateNow tk) sh \<and> meta sh = m \<and>
      shape_x sh = min (center_x fromBounds) (center_x toBounds) \<and>
      shape_y sh = min (center_y fromBounds) (center_y toBounds) \<and>
      map_of (props sh) ''start'' =
        Some (JObj [(''x'', js_number (center_x fromBounds -
                        min (center_x fromBounds) (center_x toBounds))),
                    (''y'', js_number (center_y fromBounds -
                        min (center_y fromBounds) (center_y toBounds)))]) \<and>
      map_of (props sh) ''end'' =
        Some (JObj [(''x'', js_number (center_x toBounds -
                        min (center_x fromBounds) (center_x toBounds))),
                    (''y'', js_number (center_y toBounds -
                        min (center_y fromBounds) (center_y toBounds)))])"
    unfolding edge_shape_def Let_def m(1) option.case
    by (rule exI, intro conjI, rule refl) simp_all
  then obtain sh where sh:
    "edge_shape tk action fromBounds toBounds =
        applyAiStyle (builtinString tk) (dateNow tk) sh"
    "meta sh = m"
    "shape_x sh = min (center_x fromBounds) (center_x toBounds)"
    "shape_y sh = min (center_y fromBounds) (center_y toBounds)"
    "map_of (props sh) ''start'' =
        Some (JObj [(''x'', js_number (center_x fromBounds -
                        min (center_x fromBounds) (center_x toBounds))),
                    (''y'', js_number (center_y fromBounds -
                        min (center_y fromBounds) (center_y toBounds)))])"
    "map_of (props sh) ''end'' =
        Some (JObj [(''x'', js_number (center_x toBounds -
                        min (center_x fromBounds) (center_x toBounds))),
                    (''y'', js_number (center_y toBounds -
                        min (center_y fromBounds) (center_y toBounds)))])"
    by blast
  from m(2) sh(2) have "sanitizeShapeMeta (builtinString tk) (meta sh) = Some m" by simp
  from applyAiStyle_returns [OF this, of "dateNow tk"] sh show ?thesis by auto
qed

lemma edge_apply_resolved:
  assumes "complete action"
    and "fromShape_of action ed = Some fromShape" and "toShape_of action ed = Some toShape"
    and "getShapePageBounds ed (shape_id fromShape) = Some fromBounds"
    and "getShapePageBounds ed (shape_id toShape) = Some toBounds"
  shows "CreateRelationshipEdge_applyAction tk action ed =
     map_option (\<lambda>shape. createShape shape ed) (edge_shape tk action fromBounds toBounds)"
  using assms
  by (simp add: fromShape_of_def toShape_of_def CreateRelationshipEdge_applyAction_def Let_def
      split: option.splits)

lemma edge_apply_unresolved:
  assumes "\<not> edge_resolves action ed"
  shows "CreateRelationshipEdge_applyAction tk action ed = Some ed"
proof (cases "complete action")
  case False
  then show ?thesis by (simp add: CreateRelationshipEdge_applyAction_def)
next
  case True
  with assms have "bounds_of (fromShape_of action ed) ed = None \<or>
      bounds_of (toShape_of action ed) ed = None"
    by (simp add: edge_resolves_def)
  then show ?thesis
    unfolding bounds_of_def fromShape_of_def toShape_of_def
      CreateRelationshipEdge_applyAction_def Let_def
    by (auto split: option.splits)
qed

lemma edge_resolvesD:
  assumes "edge_resolves action ed"
  obtains fromShape toShape fromBounds toBounds where
    "complete action"
    "fromShape_of action ed = Some fromShape" "toShape_of action ed = Some toShape"
    "getShapePageBounds ed (shape_id fromShape) = Some fromBounds"
    "getShapePageBounds ed (shape_id toShape) = Some toBounds"
  using assms by (auto simp: edge_resolves_def bounds_of_def split: option.splits)

text \<open>
  C7: \<open>applyAction\<close> issues a \<open>createShape\<close> call only when the action is complete and
  both endpoint shapes and their page bounds resolve, and then it issues exactly one;
  when the action is incomplete, or a shape or its bounds is missing, the editor is left
  as it was. It never throws.
\<close>

theorem edge_applyAction_aborts_or_creates_once:
  "(edge_resolves action ed \<longrightarrow>
      (\<exists>shape. CreateRelationshipEdge_applyAction tk action ed =
         Some (ed\<lparr>createShapeCalls := createShapeCalls ed @ [shape]\<rparr>))) \<and>
   (\<not> edge_resolves action ed \<longrightarrow> CreateRelationshipEdge_applyAction tk action ed = Some ed)"
proof (intro conjI impI)
  assume "edge_resolves action ed"
  then obtain fromShape toShape fromBounds toBounds where
    "complete action"
    "fromShape_of action ed = Some fromShape" "toShape_of action ed = Some toShape"
    "getShapePageBounds ed (shape_id fromShape) = Some fromBounds"
    "getShapePageBounds ed (shape_id toShape) = Some toBounds"
    by (rule edge_resolvesD)
  then have "CreateRelationshipEdge_applyAction tk action ed =
      map_option (\<lambda>shape. createShape shape ed) (edge_shape tk action fromBounds toBounds)"
    by (rule edge_apply_resolved)
  moreover obtain shape where "edge_shape tk action fromBounds toBounds = Some shape"
    using edge_shape_returns [of tk action fromBounds toBounds] by blast
  ultimately show "\<exists>shape. CreateRelationshipEdge_applyAction tk action ed =
      Some (ed\<lparr>createShapeCalls := createShapeCalls ed @ [shape]\<rparr>)"
    by (auto simp: createShape_def)
next
  assume "\<not> edge_resolves action ed"
  then show "CreateRelationshipEdge_applyAction tk action ed = Some ed"
    by (rule edge_apply_unresolved)
qed

theorem edge_applyAction_aborts_or_creates_once_witness:
  "edge_resolves (edge_between ''a'' ''b'' True) two_cards \<and>
   (\<exists>shape. CreateRelationshipEdge_applyAction plain_toolkit (edge_between ''a'' ''b'' True)
        two_cards =
      Some (two_cards\<lparr>createShapeCalls := createShapeCalls two_cards @ [shape]\<rparr>)) \<and>
   \<not> edge_resolves (edge_between ''a'' ''b'' False) two_cards \<and>
   CreateRelationshipEdge_applyAction plain_toolkit (edge_between ''a'' ''b'' False) two_cards =
     Some two_cards \<and>
   \<not> edge_resolves (edge_between ''a'' ''c'' True) two_cards \<and>
   CreateRelationshipEdge_applyAction plain_toolkit (edge_between ''a'' ''c'' True) two_cards =
     Some two_cards"
  using edge_applyAction_aborts_or_creates_once
      [of "edge_between ''a'' ''b'' True" two_cards plain_toolkit]
    edge_applyAction_aborts_or_creates_once
      [of "edge_between ''a'' ''b'' False" two_cards plain_toolkit]
    edge_applyAction_aborts_or_creates_once
      [of "edge_between ''a'' ''c'' True" two_cards plain_toolkit]
  by (simp add: edge_resolves_def bounds_of_def fromShape_of_def toShape_of_def
      edge_between_def two_cards_def card_def)

lemma edge_offset:
  "nonneg_number (js_number (c - min c c')) \<and> reaches (min c c') (js_number (c - min c c')) c"
  by (simp add: js_number_nonneg js_number_reaches)

lemma edge_offset_zero:
  "js_number (c - min c c') = JNum 0 \<or> js_number (c' - min c c') = JNum 0"
  by (cases "c \<le> c'") (simp_all add: min_def js_number_0)

text \<open>
  C9, amended: when the action is complete and both shapes and both page bounds resolve,
  \<open>applyAction\<close> issues one \<open>createShape\<close> call; the new shape's position is the
  componentwise minimum of the two centers, and each coordinate of its \<open>start\<close> and \<open>end\<close>
  props is the number the subtraction \<open>center - position\<close> returns: the double nearest to
  the difference. Each offset is a nonnegative number, and on each axis the endpoint at the
  minimum has the offset 0. The position plus a stored offset comes within half a unit in
  the last place of the difference to the center, and is the center whenever the
  difference is itself a double, as it is for whole-numbered centers up to \<open>2 ^ 52\<close> in
  size. Page bounds are taken with finite centers.
\<close>

theorem edge_endpoints_from_centers:
  assumes "complete action"
    and "fromShape_of action ed = Some fromShape" and "toShape_of action ed = Some toShape"
    and "getShapePageBounds ed (shape_id fromShape) = Some fromBounds"
    and "getShapePageBounds ed (shape_id toShape) = Some toBounds"
  shows "\<exists>shape sx sy ex ey.
     CreateRelationshipEdge_applyAction tk action ed =
       Some (ed\<lparr>createShapeCalls := createShapeCalls ed @ [shape]\<rparr>) \<and>
     shape_x shape = min (center_x fromBounds) (center_x toBounds) \<and>
     shape_y shape = min (center_y fromBounds) (center_y toBounds) \<and>
     map_of (props shape) ''start'' = Some (JObj [(''x'', sx), (''y'', sy)]) \<and>
     map_of (props shape) ''end'' = Some (JObj [(''x'', ex), (''y'', ey)]) \<and>
     sx = js_number (center_x fromBounds - shape_x shape) \<and>
     sy = js_number (center_y fromBounds - shape_y shape) \<and>
     ex = js_number (center_x toBounds - shape_x shape) \<and>
     ey = js_number (center_y toBounds - shape_y shape) \<and>
     nonneg_number sx \<and> nonneg_number sy \<and> nonneg_number ex \<and> nonneg_number ey \<and>
     (sx = JNum 0 \<or> ex = JNum 0) \<and> (sy = JNum 0 \<or> ey = JNum 0) \<and>
     reaches (shape_x shape) sx (center_x fromBounds) \<and>
     reaches (shape_y shape) sy (center_y fromBounds) \<and>
     reaches (shape_x shape) ex (center_x toBounds) \<and>
     reaches (shape_y shape) ey (center_y toBounds) \<and>
     (\<forall>i j. \<bar>i\<bar> \<le> 2 ^ 52 \<and> \<bar>j\<bar> \<le> 2 ^ 52 \<longrightarrow> is_double (of_int i - of_int j))"
proof -
  let ?px = "min (center_x fromBounds) (center_x toBounds)"
  let ?py = "min (center_y fromBounds) (center_y toBounds)"
  from edge_shape_returns [of tk action fromBounds toBounds]
  obtain shape where shape: "edge_shape tk action fromBounds toBounds = Some shape"
    "shape_x shape = ?px" "shape_y shape = ?py"
    "map_of (props shape) ''start'' =
       Some (JObj [(''x'', js_number (center_x fromBounds - ?px)),
                   (''y'', js_number (center_y fromBounds - ?py))])"
    "map_of (props shape) ''end'' =
       Some (JObj [(''x'', js_number (center_x toBounds - ?px)),
                   (''y'', js_number (center_y toBounds - ?py))])"
    by blast
  have "CreateRelationshipEdge_applyAction tk action ed =
      map_option (\<lambda>shape. createShape shape ed) (edge_shape tk action fromBounds toBounds)"
    using assms by (rule edge_apply_resolved)
  then have calls: "CreateRelationshipEdge_applyAction tk action ed =
      Some (ed\<lparr>createShapeCalls := createShapeCalls ed @ [shape]\<rparr>)"
    by (simp add: shape(1) createShape_def)
  have ints: "\<forall>i j. \<bar>i\<bar> \<le> 2 ^ 52 \<and> \<bar>j\<bar> \<le> 2 ^ 52 \<longrightarrow>
      is_double (of_int i - of_int j)"
    by (simp add: int_difference_is_double)
  have sx: "nonneg_number (js_number (center_x fromBounds - ?px))"
      "reaches ?px (js_number (center_x fromBounds - ?px)) (center_x fromBounds)"
    using edge_offset [of "center_x fromBounds" "center_x toBounds"] by simp_all
  have sy: "nonneg_number (js_number (center_y fromBounds - ?py))"
      "reaches ?py (js_number (center_y fromBounds - ?py)) (center_y fromBounds)"
    using edge_offset [of "center_y fromBounds" "center_y toBounds"] by simp_all
  have ex: "nonneg_number (js_number (center_x toBounds - ?px))"
      "reaches ?px (js_number (center_x toBounds - ?px)) (center_x toBounds)"
    using edge_offset [of "center_x toBounds" "center_x fromBounds"]
    by (simp_all add: min.commute)
  have ey: "nonneg_number (js_number (center_y toBounds - ?py))"
      "reaches ?py (js_number (center_y toBounds - ?py)) (center_y toBounds)"
    using edge_offset [of "center_y toBounds" "center_y fromBounds"]
    by (simp_all add: min.commute)
  show ?thesis
    apply (rule exI [of _ shape])
    apply (rule exI [of _ "js_number (center_x fromBounds - ?px)"])
    apply (rule exI [of _ "js_number (center_y fromBounds - ?py)"])
    apply (rule exI [of _ "js_number (center_x toBounds - ?px)"])
    apply (rule exI [of _ "js_number (center_y toBounds - ?py)"])
    apply (intro conjI)
    apply (rule calls)
    apply (rule shape(2))
    apply (rule shape(3))
    apply (rule shape(4))
    apply (rule shape(5))
    apply (simp only: shape(2))
    apply (simp only: shape(3))
    apply (simp only: shape(2))
    apply (simp only: shape(3))
    apply (rule sx(1))
    apply (rule sy(1))
    apply (rule ex(1))
    apply (rule ey(1))
    apply (rule edge_offset_zero)
    apply (rule edge_offset_zero)
    apply (simp only: shape(2) sx(2))
    apply (simp only: shape(3) sy(2))
    apply (simp only: shape(2) ex(2))
    apply (simp only: shape(3) ey(2))
    apply (rule ints)
    done
qed

theorem edge_endpoints_from_centers_witness:
  "complete (edge_between ''a'' ''b'' True) \<and>
   fromShape_of (edge_between ''a'' ''b'' True) two_cards = Some (card ''shape:a'') \<and>
   toShape_of (edge_between ''a'' ''b'' True) two_cards = Some (card ''shape:b'') \<and>
   getShapePageBounds two_cards (shape_id (card ''shape:a'')) =
     Some \<lparr>center_x = 50, center_y = 25\<rparr> \<and>
   getShapePageBounds two_cards (shape_id (card ''shape:b'')) =
     Some \<lparr>center_x = 220, center_y = - 80\<rparr> \<and>
   (\<exists>shape. CreateRelationshipEdge_applyAction plain_toolkit
        (edge_between ''a'' ''b'' True) two_cards =
      Some (two_cards\<lparr>createShapeCalls := createShapeCalls two_cards @ [shape]\<rparr>) \<and>
      shape_x shape = 50 \<and> shape_y shape = - 80 \<and>
      map_of (props shape) ''start'' = Some (JObj [(''x'', JNum 0), (''y'', JNum 105)]) \<and>
      map_of (props shape) ''end'' = Some (JObj [(''x'', JNum 170), (''y'', JNum 0)]))"
proof -
  have h: "complete (edge_between ''a'' ''b'' True)"
    "fromShape_of (edge_between ''a'' ''b'' True) two_cards = Some (card ''shape:a'')"
    "toShape_of (edge_between ''a'' ''b'' True) two_cards = Some (card ''shape:b'')"
    "getShapePageBounds two_cards (shape_id (card ''shape:a'')) =
       Some \<lparr>center_x = 50, center_y = 25\<rparr>"
    "getShapePageBounds two_cards (shape_id (card ''shape:b'')) =
       Some \<lparr>center_x = 220, center_y = - 80\<rparr>"
    by (simp_all add: fromShape_of_def toShape_of_def edge_between_def two_cards_def card_def)
  from edge_endpoints_from_centers [OF h, of plain_toolkit]
  obtain shape sx sy ex ey where s:
    "CreateRelationshipEdge_applyAction plain_toolkit (edge_between ''a'' ''b'' True)
        two_cards =
      Some (two_cards\<lparr>createShapeCalls := createShapeCalls two_cards @ [shape]\<rparr>)"
    "shape_x shape = min (center_x \<lparr>center_x = 50, center_y = 25\<rparr>)
        (center_x \<lparr>center_x = 220, center_y = - 80\<rparr>)"
    "shape_y shape = min (center_y \<lparr>center_x = 50, center_y = 25\<rparr>)
        (center_y \<lparr>center_x = 220, center_y = - 80\<rparr>)"
    "map_of (props shape) ''start'' = Some (JObj [(''x'', sx), (''y'', sy)])"
    "map_of (props shape) ''end'' = Some (JObj [(''x'', ex), (''y'', ey)])"
    "nonneg_number sx" "nonneg_number sy" "nonneg_number ex" "nonneg_number ey"
    "sx = JNum 0 \<or> ex = JNum 0" "sy = JNum 0 \<or> ey = JNum 0"
    "reaches (shape_x shape) sx (center_x \<lparr>center_x = 50, center_y = 25\<rparr>)"
    "reaches (shape_y shape) sy (center_y \<lparr>center_x = 50, center_y = 25\<rparr>)"
    "reaches (shape_x shape) ex (center_x \<lparr>center_x = 220, center_y = - 80\<rparr>)"
    "reaches (shape_y shape) ey (center_y \<lparr>center_x = 220, center_y = - 80\<rparr>)"
    "\<forall>i j. \<bar>i\<bar> \<le> 2 ^ 52 \<and> \<bar>j\<bar> \<le> 2 ^ 52 \<longrightarrow>
       is_double (real_of_int i - real_of_int j)"
    by blast
  from s(2,3) have p: "shape_x shape = 50" "shape_y shape = - 80" by simp_all
  from s(16) [rule_format, of 50 50] have "is_double (50 - 50)" by simp
  with s(12) p have sx: "sx = JNum 0" by (cases sx) (simp_all add: reaches_def)
  from s(16) [rule_format, of 25 "- 80"] have "is_double (25 - (- 80))" by simp
  with s(13) p have sy: "sy = JNum 105" by (cases sy) (simp_all add: reaches_def)
  from s(16) [rule_format, of 220 50] have "is_double (220 - 50)" by simp
  with s(14) p have ex: "ex = JNum 170" by (cases ex) (simp_all add: reaches_def)
  from s(16) [rule_format, of "- 80" "- 80"] have "is_double (- 80 - (- 80))" by simp
  with s(15) p have ey: "ey = JNum 0" by (cases ey) (simp_all add: reaches_def)
  from s(1,4,5) p sx sy ex ey h show ?thesis by blast
qed

lemma fifth_is_double: "is_double (3602879701896397 / 2 ^ 54)"
proof -
  have k: "round_half_even 7205759403792794 = 7205759403792794"
    using round_half_even_int [of 7205759403792794] by simp
  have "round_to_double (3602879701896397 / 2 ^ 54) =
      of_int (round_half_even (3602879701896397 / 2 ^ 54 / 2 powi (- 3 - 52))) *
        2 powi (- 3 - 52)"
    by (rule round_to_double_in_binade) (simp_all add: power_int_minus)
  also have "3602879701896397 / 2 ^ 54 / 2 powi (- 3 - 52) = (7205759403792794 :: real)"
    by (simp add: power_int_minus)
  finally show ?thesis
    by (simp add: is_double_def k power_int_minus)
qed

lemma nine_tenths_is_double: "is_double (8106479329266893 / 2 ^ 53)"
proof -
  have k: "round_half_even 8106479329266893 = 8106479329266893"
    using round_half_even_int [of 8106479329266893] by simp
  have "round_to_double (8106479329266893 / 2 ^ 53) =
      of_int (round_half_even (8106479329266893 / 2 ^ 53 / 2 powi (- 1 - 52))) *
        2 powi (- 1 - 52)"
    by (rule round_to_double_in_binade) (simp_all add: power_int_minus)
  also have "8106479329266893 / 2 ^ 53 / 2 powi (- 1 - 52) = (8106479329266893 :: real)"
    by (simp add: power_int_minus)
  finally show ?thesis
    by (simp add: is_double_def k power_int_minus)
qed

lemma nine_tenths_minus_fifth:
  "js_number (8106479329266893 / 2 ^ 53 - 3602879701896397 / 2 ^ 54) =
     JNum (6305039478318694 / 2 ^ 53)"
proof -
  let ?r = "8106479329266893 / 2 ^ 53 - 3602879701896397 / 2 ^ 54 :: real"
  have r: "?r = 12610078956637389 / 2 ^ 54" by simp
  have "round_to_double ?r =
      of_int (round_half_even (?r / 2 powi (- 1 - 52))) * 2 powi (- 1 - 52)"
    by (rule round_to_double_in_binade) (simp_all add: power_int_minus)
  also have "?r / 2 powi (- 1 - 52) = 12610078956637389 / 2"
    by (simp add: power_int_minus)
  also have "round_half_even (12610078956637389 / 2) = 6305039478318694"
    by (simp add: round_half_even_def)
  finally have "round_to_double ?r = 6305039478318694 / 2 ^ 53"
    by (simp add: power_int_minus)
  then show ?thesis by (simp add: js_number_def)
qed

lemma fifth_plus_seven_tenths:
  "js_number (3602879701896397 / 2 ^ 54 + 6305039478318694 / 2 ^ 53) =
     JNum (8106479329266892 / 2 ^ 53)"
proof -
  let ?r = "3602879701896397 / 2 ^ 54 + 6305039478318694 / 2 ^ 53 :: real"
  have "round_to_double ?r =
      of_int (round_half_even (?r / 2 powi (- 1 - 52))) * 2 powi (- 1 - 52)"
    by (rule round_to_double_in_binade) (simp_all add: power_int_minus)
  also have "?r / 2 powi (- 1 - 52) = 16212958658533785 / 2"
    by (simp add: power_int_minus)
  also have "round_half_even (16212958658533785 / 2) = 8106479329266892"
    by (simp add: round_half_even_def)
  finally have "round_to_double ?r = 8106479329266892 / 2 ^ 53"
    by (simp add: power_int_minus)
  then show ?thesis by (simp add: js_number_def)
qed

theorem edge_endpoints_counterexample:
  "is_double (3602879701896397 / 2 ^ 54) \<and> is_double (8106479329266893 / 2 ^ 53) \<and>
   map_option (\<lambda>ed. map (\<lambda>shape. (shape_x shape, map_of (props shape) ''end''))
                  (createShapeCalls ed))
     (CreateRelationshipEdge_applyAction plain_toolkit (edge_between ''a'' ''b'' True)
        fraction_cards) =
     Some [(3602879701896397 / 2 ^ 54,
            Some (JObj [(''x'', JNum (6305039478318694 / 2 ^ 53)), (''y'', JNum 0)]))] \<and>
   3602879701896397 / 2 ^ 54 + 6305039478318694 / 2 ^ 53 \<noteq>
     (8106479329266893 / 2 ^ 53 :: real) \<and>
   js_number (3602879701896397 / 2 ^ 54 + 6305039478318694 / 2 ^ 53) =
     JNum (8106479329266892 / 2 ^ 53) \<and>
   (8106479329266892 / 2 ^ 53 :: real) \<noteq> 8106479329266893 / 2 ^ 53"
proof -
  let ?a = "\<lparr>center_x = 3602879701896397 / 2 ^ 54, center_y = 0\<rparr>"
  let ?b = "\<lparr>center_x = 8106479329266893 / 2 ^ 53, center_y = 0\<rparr>"
  have "CreateRelationshipEdge_applyAction plain_toolkit (edge_between ''a'' ''b'' True)
      fraction_cards =
      map_option (\<lambda>shape. createShape shape fraction_cards)
        (edge_shape plain_toolkit (edge_between ''a'' ''b'' True) ?a ?b)"
    by (rule edge_apply_resolved [where fromShape = "card ''shape:a''"
          and toShape = "card ''shape:b''"])
      (simp_all add: fromShape_of_def toShape_of_def edge_between_def fraction_cards_def
        card_def)
  moreover from edge_shape_returns [of plain_toolkit "edge_between ''a'' ''b'' True" ?a ?b]
  obtain shape where
    "edge_shape plain_toolkit (edge_between ''a'' ''b'' True) ?a ?b = Some shape"
    "shape_x shape = 3602879701896397 / 2 ^ 54"
    "map_of (props shape) ''end'' =
       Some (JObj [(''x'', js_number (8106479329266893 / 2 ^ 53 - 3602879701896397 / 2 ^ 54)),
                   (''y'', js_number 0)])"
    by auto
  moreover note this(3) [unfolded nine_tenths_minus_fifth js_number_0]
  ultimately have "map_option (\<lambda>ed. map (\<lambda>shape. (shape_x shape, map_of (props shape) ''end''))
                  (createShapeCalls ed))
     (CreateRelationshipEdge_applyAction plain_toolkit (edge_between ''a'' ''b'' True)
        fraction_cards) =
     Some [(3602879701896397 / 2 ^ 54,
            Some (JObj [(''x'', JNum (6305039478318694 / 2 ^ 53)), (''y'', JNum 0)]))]"
    by (simp add: createShape_def fraction_cards_def)
  moreover have "3602879701896397 / 2 ^ 54 + 6305039478318694 / 2 ^ 53 \<noteq>
     (8106479329266893 / 2 ^ 53 :: real)" by simp
  moreover have "(8106479329266892 / 2 ^ 53 :: real) \<noteq> 8106479329266893 / 2 ^ 53" by simp
  ultimately show ?thesis
    using fifth_is_double nine_tenths_is_double fifth_plus_seven_tenths by blast
qed

section \<open>Saving and loading readings\<close>

lemma valid_reading_json: "valid_reading (reading_json r) = nonempty_reading r"
  by (simp add: valid_reading_def reading_json_def nonempty_reading_def)

lemma load_save_readings:
  "loadReadings (saveReadings rs (Some storage)) =
     map reading_json (filter nonempty_reading rs)"
  by (simp add: loadReadings_def saveReadings_def filter_map comp_def valid_reading_json)

lemma reading_json_inj: "inj reading_json"
  by (rule injI) (simp add: reading_json_def)

text \<open>
  C10: in a browser, loading after saving returns the saved entries whose id, title and
  content are all non-empty, in the same order, each as the object that was written; so
  the round trip returns the whole list exactly when every entry has a non-empty id,
  title and content.
\<close>

theorem save_then_load_readings:
  "loadReadings (saveReadings rs (Some storage)) =
     map reading_json (filter nonempty_reading rs) \<and>
   (loadReadings (saveReadings rs (Some storage)) = map reading_json rs \<longleftrightarrow>
      (\<forall>r\<in>set rs. nonempty_reading r))"
proof -
  have "map reading_json (filter nonempty_reading rs) = map reading_json rs \<longleftrightarrow>
      filter nonempty_reading rs = rs"
    by (rule inj_map_eq_map [OF reading_json_inj])
  then show ?thesis by (simp add: load_save_readings filter_id_conv)
qed

theorem save_then_load_readings_witness:
  "loadReadings (saveReadings [reading ''r1'' ''some words'', reading ''r2'' []] (Some Map.empty)) =
     [reading_json (reading ''r1'' ''some words'')] \<and>
   loadReadings (saveReadings [reading ''r1'' ''some words'', reading ''r2'' []] (Some Map.empty)) \<noteq>
     map reading_json [reading ''r1'' ''some words'', reading ''r2'' []] \<and>
   loadReadings (saveReadings [reading ''r1'' ''some words''] (Some Map.empty)) =
     map reading_json [reading ''r1'' ''some words'']"
  using save_then_load_readings [of "[reading ''r1'' ''some words'', reading ''r2'' []]" Map.empty]
    save_then_load_readings [of "[reading ''r1'' ''some words'']" Map.empty]
  by (simp add: nonempty_reading_def reading_def)

section \<open>Loading the workspace\<close>
























section \<open>Reading content and reading context\<close>

lemma collapse_ws_no_space: "\<forall>c\<in>set s. \<not> is_space c \<Longrightarrow> collapse_ws s = s"
  by (induction s) auto

lemma trim_no_space:
  assumes "\<forall>c\<in>set s. \<not> is_space c"
  shows "trim s = s"
proof -
  from assms have "dropWhile is_space s = s" by (cases s) auto
  moreover from assms have "dropWhile is_space (rev s) = rev s"
    by (cases "rev s") (auto dest: arg_cong [where f = set])
  ultimately show ?thesis by (simp add: trim_def)
qed

lemma collapse_ws_spaces: "collapse_ws (replicate (Suc n) CHR '' '') = '' ''"
proof -
  have "dropWhile is_space (replicate n CHR '' '') = []"
    by (simp add: is_space_def)
  then show ?thesis by (simp add: is_space_def)
qed

lemma trim_space: "trim '' '' = []"
  by (simp add: trim_def is_space_def)

lemma context_reading_json: "context_reading (reading_json r) = Some (context_of r)"
  by (simp add: context_reading_def reading_json_def context_of_def)

lemma those_map_Some: "those (map (\<lambda>x. Some (f x)) xs) = Some (map f xs)"
  by (induction xs) auto

lemma getPart_saved:
  "getPart (saveReadings rs (Some storage)) =
     Some (map context_of (rev (slice_last MAX_CONTEXT_ITEMS (filter nonempty_reading rs))))"
proof -
  have "map context_reading
          (rev (slice_last MAX_CONTEXT_ITEMS (map reading_json (filter nonempty_reading rs)))) =
        map (\<lambda>r. Some (context_of r))
          (rev (slice_last MAX_CONTEXT_ITEMS (filter nonempty_reading rs)))"
    by (simp add: slice_last_def drop_map rev_map context_reading_json comp_def)
  then show ?thesis
    by (simp add: getPart_def load_save_readings those_map_Some)
qed

lemma context_of_prefix:
  "list_all2 (\<lambda>p r. \<exists>c. ctx_content p = JStr c \<and> length c \<le> 3500 \<and>
                prefix c (reading_content r))
     (map context_of xs) xs"
  by (simp add: list_all2_map1 list_all2_same context_of_def MAX_CONTEXT_READING_CHARS_def
      take_is_prefix)

text \<open>
  C5, as the code has it: the content of a created reading document is the first 18,000
  characters of the input after its white space is normalized (every run of white space
  made one space, the ends trimmed), so it has at most 18,000 characters, and exactly
  18,000 when the normalized text is longer than that, as it is for an input of more
  than 18,000 characters without white space. For stored reading documents, \<open>getPart\<close>
  returns the last eight that load, newest first, each with a content of at most 3,500
  characters that is a prefix of the stored content.
\<close>

theorem reading_content_caps:
  "length (reading_content (createReadingDocument clock rnd fileName content)) \<le> 18000 \<and>
   reading_content (createReadingDocument clock rnd fileName content) =
     take 18000 (trim (collapse_ws content)) \<and>
   (18000 < length (trim (collapse_ws content)) \<longrightarrow>
      length (reading_content (createReadingDocument clock rnd fileName content)) = 18000) \<and>
   (18000 < length content \<and> (\<forall>c\<in>set content. \<not> is_space c) \<longrightarrow>
      reading_content (createReadingDocument clock rnd fileName content) = take 18000 content \<and>
      length (reading_content (createReadingDocument clock rnd fileName content)) = 18000) \<and>
   (\<exists>part. getPart (saveReadings rs (Some storage)) = Some part \<and>
      list_all2 (\<lambda>p r. \<exists>c. ctx_content p = JStr c \<and> length c \<le> 3500 \<and>
                   prefix c (reading_content r))
        part (rev (slice_last 8 (filter nonempty_reading rs))))"
proof -
  have c: "reading_content (createReadingDocument clock rnd fileName content) =
      take 18000 (trim (collapse_ws content))"
    by (simp add: createReadingDocument_def MAX_READING_CHARS_def Let_def)
  have "\<forall>c\<in>set content. \<not> is_space c \<Longrightarrow> trim (collapse_ws content) = content"
    by (simp add: collapse_ws_no_space trim_no_space)
  moreover have "\<exists>part. getPart (saveReadings rs (Some storage)) = Some part \<and>
      list_all2 (\<lambda>p r. \<exists>c. ctx_content p = JStr c \<and> length c \<le> 3500 \<and>
                   prefix c (reading_content r))
        part (rev (slice_last 8 (filter nonempty_reading rs)))"
    using context_of_prefix [of "rev (slice_last 8 (filter nonempty_reading rs))"]
    by (simp add: getPart_saved MAX_CONTEXT_ITEMS_def)
  ultimately show ?thesis
    unfolding c by auto
qed

theorem reading_content_caps_witness:
  "length (reading_content (createReadingDocument ticking ''k3x9qa'' ''notes.txt''
      (replicate 18001 CHR ''a''))) = 18000 \<and>
   reading_content (createReadingDocument ticking ''k3x9qa'' ''notes.txt''
      (replicate 18001 CHR ''a'')) = replicate 18000 CHR ''a'' \<and>
   (\<exists>p c. getPart (saveReadings [reading ''r1'' (replicate 4000 CHR ''b'')] (Some Map.empty)) =
        Some [p] \<and>
      ctx_content p = JStr c \<and> length c \<le> 3500 \<and> prefix c (replicate 4000 CHR ''b''))"
proof -
  let ?rs = "[reading ''r1'' (replicate 4000 CHR ''b'')]"
  note t = reading_content_caps [of ticking "''k3x9qa''" "''notes.txt''"
      "replicate 18001 CHR ''a''" ?rs Map.empty]
  have h: "18000 < length (replicate 18001 CHR ''a'') \<and>
      (\<forall>c\<in>set (replicate 18001 CHR ''a''). \<not> is_space c)"
    by (simp add: is_space_def)
  with t have "reading_content (createReadingDocument ticking ''k3x9qa'' ''notes.txt''
        (replicate 18001 CHR ''a'')) = take 18000 (replicate 18001 CHR ''a'') \<and>
      length (reading_content (createReadingDocument ticking ''k3x9qa'' ''notes.txt''
        (replicate 18001 CHR ''a''))) = 18000"
    by blast
  then have first: "length (reading_content (createReadingDocument ticking ''k3x9qa''
        ''notes.txt'' (replicate 18001 CHR ''a''))) = 18000"
    "reading_content (createReadingDocument ticking ''k3x9qa'' ''notes.txt''
        (replicate 18001 CHR ''a'')) = replicate 18000 CHR ''a''"
    by simp_all
  have "rev (slice_last 8 (filter nonempty_reading ?rs)) = ?rs"
    by (simp add: slice_last_def nonempty_reading_def reading_def)
  with t obtain part where part: "getPart (saveReadings ?rs (Some Map.empty)) = Some part"
    "list_all2 (\<lambda>p r. \<exists>c. ctx_content p = JStr c \<and> length c \<le> 3500 \<and>
        prefix c (reading_content r)) part ?rs"
    by auto
  from part(2) obtain p c where "part = [p]" "ctx_content p = JStr c" "length c \<le> 3500"
    "prefix c (reading_content (reading ''r1'' (replicate 4000 CHR ''b'')))"
    by (auto simp: list_all2_Cons2)
  with part(1) have "\<exists>p c. getPart (saveReadings ?rs (Some Map.empty)) = Some [p] \<and>
      ctx_content p = JStr c \<and> length c \<le> 3500 \<and> prefix c (replicate 4000 CHR ''b'')"
    by (auto simp: reading_def)
  with first show ?thesis by blast
qed

text \<open>
  The claim as stated fails: an input of 18,001 spaces is longer than 18,000 characters,
  and the content created from it is empty, not 18,000 characters long.
\<close>

theorem reading_truncation_counterexample:
  "18000 < length (replicate 18001 CHR '' '') \<and>
   reading_content (createReadingDocument ticking ''k3x9qa'' ''notes.txt''
      (replicate 18001 CHR '' '')) = []"
proof -
  have "replicate 18001 CHR '' '' = replicate (Suc 18000) CHR '' ''" by simp
  then have "collapse_ws (replicate 18001 CHR '' '') = '' ''"
    using collapse_ws_spaces [of 18000] by metis
  then show ?thesis
    by (simp add: createReadingDocument_def Let_def trim_space)
qed

section \<open>Repeated turn ids\<close>

lemma getPlacementBounds_processed:
  "processedTurnIdsRef (snd (getPlacementBounds ag st)) = processedTurnIdsRef st"
  by (simp add: getPlacementBounds_def Let_def)

lemma turnId_of_id: "turn_id turn = Some i \<Longrightarrow> turnId_of now turn said = i"
  by (simp add: turnId_of_def)

lemma queue_processed_mono:
  "processedTurnIdsRef (fst sa) \<subseteq> processedTurnIdsRef (fst (queueTurnAsNotecard now turn sa))"
  by (auto simp: queueTurnAsNotecard_def Let_def getPlacementBounds_processed
      split: option.splits)

lemma queue_scheduled:
  "scheduled (snd (queueTurnAsNotecard now turn sa)) = scheduled (snd sa) \<or>
   (\<exists>request. scheduled (snd (queueTurnAsNotecard now turn sa)) =
      scheduled (snd sa) @ [request])"
  by (auto simp: queueTurnAsNotecard_def Let_def schedule_def split: option.splits)

lemma queue_known_id:
  assumes "turn_id turn = Some i" and "i \<in> processedTurnIdsRef (fst sa)"
  shows "queueTurnAsNotecard now turn sa = sa"
  using assms
  by (auto simp: queueTurnAsNotecard_def Let_def turnId_of_id split: option.splits)

lemma queue_new_id:
  assumes "turn_id turn = Some i"
    and "length (scheduled (snd sa)) <
         length (scheduled (snd (queueTurnAsNotecard now turn sa)))"
  shows "i \<in> processedTurnIdsRef (fst (queueTurnAsNotecard now turn sa))"
  using assms
  by (auto simp: queueTurnAsNotecard_def Let_def turnId_of_id getPlacementBounds_processed
      split: option.splits if_splits)

lemma handle_processed_mono:
  "processedTurnIdsRef (fst sa) \<subseteq>
     processedTurnIdsRef (fst (handleSocketMessage now parsed sa))"
  using queue_processed_mono [of "((fst sa)\<lparr>liveTranscript := []\<rparr>, snd sa)"]
  by (auto simp: handleSocketMessage_def split: option.splits)

lemma handle_scheduled:
  "scheduled (snd (handleSocketMessage now parsed sa)) = scheduled (snd sa) \<or>
   (\<exists>request. scheduled (snd (handleSocketMessage now parsed sa)) =
      scheduled (snd sa) @ [request])"
  using queue_scheduled [of now _ "((fst sa)\<lparr>liveTranscript := []\<rparr>, snd sa)"]
  by (auto simp: handleSocketMessage_def split: option.splits)

lemma handle_known_id:
  assumes "carries_id i parsed" and "i \<in> processedTurnIdsRef (fst sa)"
  shows "scheduled (snd (handleSocketMessage now parsed sa)) = scheduled (snd sa)"
  using assms queue_known_id [of _ i "((fst sa)\<lparr>liveTranscript := []\<rparr>, snd sa)" now]
  by (auto simp: handleSocketMessage_def carries_id_def split: option.splits)

lemma handle_new_id:
  assumes "carries_id i parsed"
    and "length (scheduled (snd sa)) <
         length (scheduled (snd (handleSocketMessage now parsed sa)))"
  shows "i \<in> processedTurnIdsRef (fst (handleSocketMessage now parsed sa))"
  using assms queue_new_id [of _ i "((fst sa)\<lparr>liveTranscript := []\<rparr>, snd sa)" now]
  by (auto simp: handleSocketMessage_def carries_id_def split: option.splits if_splits)

lemma dispatched_known_id:
  "i \<in> processedTurnIdsRef (fst sa) \<Longrightarrow> filter (carries_id i) (dispatched evs sa) = []"
proof (induction evs arbitrary: sa)
  case Nil
  then show ?case by simp
next
  case (Cons ev evs)
  obtain now parsed where ev: "ev = (now, parsed)" by (cases ev)
  let ?sa' = "handleSocketMessage now parsed sa"
  from Cons.prems handle_processed_mono [of sa now parsed]
  have "i \<in> processedTurnIdsRef (fst ?sa')" by blast
  then have rest: "filter (carries_id i) (dispatched evs ?sa') = []" by (rule Cons.IH)
  have "carries_id i parsed \<Longrightarrow>
      \<not> length (scheduled (snd sa)) < length (scheduled (snd ?sa'))"
    using handle_known_id [OF _ Cons.prems, of parsed now] by simp
  with rest ev show ?case by (simp add: Let_def)
qed

lemma dispatched_at_most_once:
  "length (filter (carries_id i) (dispatched evs sa)) \<le> 1"
proof (induction evs arbitrary: sa)
  case Nil
  then show ?case by simp
next
  case (Cons ev evs)
  obtain now parsed where ev: "ev = (now, parsed)" by (cases ev)
  let ?sa' = "handleSocketMessage now parsed sa"
  show ?case
  proof (cases "carries_id i parsed \<and>
      length (scheduled (snd sa)) < length (scheduled (snd ?sa'))")
    case True
    then have "i \<in> processedTurnIdsRef (fst ?sa')" by (simp add: handle_new_id)
    then have "filter (carries_id i) (dispatched evs ?sa') = []"
      by (rule dispatched_known_id)
    with True ev show ?thesis by (simp add: Let_def)
  next
    case False
    with ev Cons.IH [of ?sa'] show ?thesis by (auto simp: Let_def)
  qed
qed

lemma handle_all_scheduled:
  "length (scheduled (snd (handle_all evs sa))) =
     length (scheduled (snd sa)) + length (dispatched evs sa)"
proof (induction evs arbitrary: sa)
  case Nil
  then show ?case by simp
next
  case (Cons ev evs)
  obtain now parsed where ev: "ev = (now, parsed)" by (cases ev)
  from handle_scheduled [of now parsed sa] Cons.IH [of "handleSocketMessage now parsed sa"] ev
  show ?case by (auto simp: Let_def)
qed

text \<open>
  C3: for every sequence of messages and every id, at most one of the messages carrying
  that id causes a dispatch, whatever the state the hook starts in; every request
  scheduled comes from one such dispatch; a message whose handling dispatched has its id
  among the processed ids afterwards; and once an id is among them, no later message
  carrying it dispatches.
\<close>

theorem repeated_turn_id_dispatches_once:
  "length (filter (carries_id i) (dispatched evs sa)) \<le> 1 \<and>
   length (scheduled (snd (handle_all evs sa))) =
     length (scheduled (snd sa)) + length (dispatched evs sa) \<and>
   (carries_id i parsed \<and>
      length (scheduled (snd sa)) <
        length (scheduled (snd (handleSocketMessage now parsed sa))) \<longrightarrow>
      i \<in> processedTurnIdsRef (fst (handleSocketMessage now parsed sa))) \<and>
   (i \<in> processedTurnIdsRef (fst sa) \<longrightarrow> filter (carries_id i) (dispatched evs sa) = [])"
  using dispatched_at_most_once [of i evs sa] handle_all_scheduled [of evs sa]
    handle_new_id [of i parsed sa now] dispatched_known_id [of i sa evs]
  by blast

theorem repeated_turn_id_dispatches_once_witness:
  "dispatched repeated_turns (initial_hook, quiet_agent) =
     [Some (final_turn ''t1'' ''first point''), Some (final_turn ''t2'' ''second'')] \<and>
   length (filter (carries_id ''t1'') (dispatched repeated_turns (initial_hook, quiet_agent))) = 1 \<and>
   length (scheduled (snd (handle_all repeated_turns (initial_hook, quiet_agent)))) = 2 \<and>
   ''t1'' \<in> processedTurnIdsRef (fst (handleSocketMessage 1
      (Some (final_turn ''t1'' ''first point'')) (initial_hook, quiet_agent))) \<and>
   filter (carries_id ''t1'')
     (dispatched (tl repeated_turns)
        (handleSocketMessage 1 (Some (final_turn ''t1'' ''first point''))
           (initial_hook, quiet_agent))) = []"
proof -
  have d: "dispatched repeated_turns (initial_hook, quiet_agent) =
     [Some (final_turn ''t1'' ''first point''), Some (final_turn ''t2'' ''second'')]"
    by (simp add: repeated_turns_def handleSocketMessage_def queueTurnAsNotecard_def Let_def
        final_turn_def initial_hook_def quiet_agent_def turnId_of_def trim_def is_space_def
        schedule_def getPlacementBounds_def)
  have c: "carries_id ''t1'' (Some (final_turn ''t1'' ''first point''))"
    by (simp add: carries_id_def final_turn_def)
  have s: "length (scheduled (snd (initial_hook, quiet_agent))) <
      length (scheduled (snd (handleSocketMessage 1 (Some (final_turn ''t1'' ''first point''))
        (initial_hook, quiet_agent))))"
    by (simp add: handleSocketMessage_def queueTurnAsNotecard_def Let_def
        final_turn_def initial_hook_def quiet_agent_def turnId_of_def trim_def is_space_def
        schedule_def getPlacementBounds_def)
  have p: "''t1'' \<in> processedTurnIdsRef (fst (handleSocketMessage 1
      (Some (final_turn ''t1'' ''first point'')) (initial_hook, quiet_agent)))"
    using repeated_turn_id_dispatches_once
      [of "''t1''" repeated_turns "(initial_hook, quiet_agent)"
        "Some (final_turn ''t1'' ''first point'')" 1] c s
    by blast
  have "filter (carries_id ''t1'')
     (dispatched (tl repeated_turns)
        (handleSocketMessage 1 (Some (final_turn ''t1'' ''first point''))
           (initial_hook, quiet_agent))) = []"
    using repeated_turn_id_dispatches_once
      [of "''t1''" "tl repeated_turns"
        "handleSocketMessage 1 (Some (final_turn ''t1'' ''first point''))
           (initial_hook, quiet_agent)"] p
    by blast
  moreover have "length (scheduled (snd (handle_all repeated_turns (initial_hook, quiet_agent)))) = 2"
    using repeated_turn_id_dispatches_once
      [of "''t1''" repeated_turns "(initial_hook, quiet_agent)"] d
    by (simp add: quiet_agent_def)
  moreover have "length (filter (carries_id ''t1'')
      (dispatched repeated_turns (initial_hook, quiet_agent))) = 1"
    unfolding d by (simp add: carries_id_def final_turn_def)
  ultimately show ?thesis using d p by simp
qed

section \<open>The token route\<close>

text \<open>
  C8, as the code has it: without a configured key the route returns status 500 with an
  \<open>error\<close> body. With a key, when the upstream fetch resolves and its body can be read
  (as text when the response is not ok, as JSON other than \<open>null\<close> when it is), the route
  returns status 502 with an \<open>error\<close> body when the response is not ok or its JSON has no
  token, and otherwise a body of \<open>token\<close> and \<open>expiresInSeconds = 600\<close>. When the fetch
  rejects or the body cannot be read, the route throws and returns no response. So every
  response the route returns is one of the two bodies, the \<open>error\<close> body with status 500
  or 502.
\<close>

theorem token_route_responses:
  "(\<not> truthy_id (ASSEMBLYAI_API_KEY env) \<longrightarrow>
      assemblyAiToken fetch env =
        Inr \<lparr>status_code = 500,
             response_body = JObj [(''error'', JStr ''AssemblyAI key is not configured.'')]\<rparr>) \<and>
   (truthy_id (ASSEMBLYAI_API_KEY env) \<and>
      fetch token_url (the (ASSEMBLYAI_API_KEY env)) = Rejects \<longrightarrow>
      assemblyAiToken fetch env = Inl FetchRejected) \<and>
   (truthy_id (ASSEMBLYAI_API_KEY env) \<longrightarrow>
      (\<forall>resp. fetch token_url (the (ASSEMBLYAI_API_KEY env)) = Resolves resp \<longrightarrow>
         (\<not> readable resp \<longrightarrow> (\<exists>e. assemblyAiToken fetch env = Inl e)) \<and>
         (readable resp \<and> \<not> resp_ok resp \<longrightarrow>
            assemblyAiToken fetch env =
              Inr \<lparr>status_code = 502,
                   response_body = JObj [(''error'', JStr ''Failed to get AssemblyAI token.'')]\<rparr>) \<and>
         (\<forall>data. readable resp \<and> resp_ok resp \<and> resp_json resp = Some data \<longrightarrow>
            (\<not> truthy (opt_prop data ''token'') \<longrightarrow>
               (\<exists>e. assemblyAiToken fetch env =
                  Inr \<lparr>status_code = 502, response_body = JObj [(''error'', e)]\<rparr>)) \<and>
            (truthy (opt_prop data ''token'') \<longrightarrow>
               assemblyAiToken fetch env =
                 Inr \<lparr>status_code = 200,
                      response_body = JObj [(''token'', opt_prop data ''token''),
                                            (''expiresInSeconds'', JNum 600)]\<rparr>)))) \<and>
   (\<forall>r. assemblyAiToken fetch env = Inr r \<longrightarrow>
      ((status_code r = 500 \<or> status_code r = 502) \<and>
         (\<exists>e. response_body r = JObj [(''error'', e)])) \<or>
      (status_code r = 200 \<and>
         (\<exists>t. truthy t \<and>
            response_body r = JObj [(''token'', t), (''expiresInSeconds'', JNum 600)])))"
proof (cases "truthy_id (ASSEMBLYAI_API_KEY env)")
  case False
  then show ?thesis by (simp add: assemblyAiToken_def)
next
  case key: True
  show ?thesis
  proof (cases "fetch token_url (the (ASSEMBLYAI_API_KEY env))")
    case Rejects
    with key show ?thesis by (simp add: assemblyAiToken_def)
  next
    case (Resolves resp)
    show ?thesis
    proof (cases "resp_ok resp")
      case False
      with key Resolves show ?thesis
        by (cases "resp_text resp") (simp_all add: assemblyAiToken_def readable_def)
    next
      case ok: True
      show ?thesis
      proof (cases "resp_json resp")
        case None
        with key Resolves ok show ?thesis by (simp add: assemblyAiToken_def readable_def)
      next
        case (Some data)
        show ?thesis
        proof (cases "is_nullish data")
          case True
          then have "get_prop data ''token'' = None" by (auto simp: is_nullish_def)
          with key Resolves ok Some True show ?thesis
            by (simp add: assemblyAiToken_def readable_def)
        next
          case False
          then have "get_prop data ''token'' = Some (opt_prop data ''token'')"
            by (cases data) (auto simp: is_nullish_def)
          with key Resolves ok Some False show ?thesis
            by (simp add: assemblyAiToken_def readable_def DEFAULT_TOKEN_DURATION_SECONDS_def)
        qed
      qed
    qed
  qed
qed

theorem token_route_responses_witness:
  "assemblyAiToken (upstream True (Some (JObj [(''token'', JStr ''abc'')])))
      \<lparr>ASSEMBLYAI_API_KEY = None\<rparr> =
     Inr \<lparr>status_code = 500,
          response_body = JObj [(''error'', JStr ''AssemblyAI key is not configured.'')]\<rparr> \<and>
   assemblyAiToken (\<lambda>url authorization. Rejects) \<lparr>ASSEMBLYAI_API_KEY = Some ''key''\<rparr> =
     Inl FetchRejected \<and>
   assemblyAiToken (upstream False None) \<lparr>ASSEMBLYAI_API_KEY = Some ''key''\<rparr> =
     Inr \<lparr>status_code = 502,
          response_body = JObj [(''error'', JStr ''Failed to get AssemblyAI token.'')]\<rparr> \<and>
   (\<exists>e. assemblyAiToken (upstream True (Some (JObj [])))
           \<lparr>ASSEMBLYAI_API_KEY = Some ''key''\<rparr> =
         Inr \<lparr>status_code = 502, response_body = JObj [(''error'', e)]\<rparr>) \<and>
   assemblyAiToken (upstream True (Some (JObj [(''token'', JStr ''abc'')])))
      \<lparr>ASSEMBLYAI_API_KEY = Some ''key''\<rparr> =
     Inr \<lparr>status_code = 200,
          response_body = JObj [(''token'', JStr ''abc''), (''expiresInSeconds'', JNum 600)]\<rparr> \<and>
   (\<exists>e. assemblyAiToken (upstream True (Some JNull)) \<lparr>ASSEMBLYAI_API_KEY = Some ''key''\<rparr> =
         Inl e)"
  using token_route_responses
      [of "\<lparr>ASSEMBLYAI_API_KEY = None\<rparr>" "upstream True (Some (JObj [(''token'', JStr ''abc'')]))"]
    token_route_responses
      [of "\<lparr>ASSEMBLYAI_API_KEY = Some ''key''\<rparr>" "\<lambda>url authorization. Rejects"]
    token_route_responses
      [of "\<lparr>ASSEMBLYAI_API_KEY = Some ''key''\<rparr>" "upstream False None"]
    token_route_responses
      [of "\<lparr>ASSEMBLYAI_API_KEY = Some ''key''\<rparr>" "upstream True (Some (JObj []))"]
    token_route_responses
      [of "\<lparr>ASSEMBLYAI_API_KEY = Some ''key''\<rparr>"
        "upstream True (Some (JObj [(''token'', JStr ''abc'')]))"]
    token_route_responses
      [of "\<lparr>ASSEMBLYAI_API_KEY = Some ''key''\<rparr>" "upstream True (Some JNull)"]
  by (simp add: upstream_def readable_def is_nullish_def)

text \<open>
  The claim as stated has the route return a response for every request and
  environment; when the upstream fetch rejects, the route throws and returns none.
\<close>

theorem token_route_counterexample:
  "assemblyAiToken (\<lambda>url authorization. Rejects) \<lparr>ASSEMBLYAI_API_KEY = Some ''key''\<rparr> =
     Inl FetchRejected \<and>
   \<not> (\<exists>r. assemblyAiToken (\<lambda>url authorization. Rejects)
            \<lparr>ASSEMBLYAI_API_KEY = Some ''key''\<rparr> = Inr r)"
  by (simp add: assemblyAiToken_def)

end
